theory Spec2Isabelle
  imports
    Complex_Main
    "HOL-Library.Char_ord"
    "HOL-Library.List_Lexorder"
    "HOL-Library.Product_Lexorder"
    "HOL-Library.Multiset"
begin

section \<open>Python text\<close>

text \<open>
  A Python \<open>str\<close> is modelled as a \<^typ>\<open>string\<close>: a list of characters, each standing
  for one code point below 256. Strings are ordered as Python orders them, lexicographically
  by code point (\<open>Char_ord\<close>, \<open>List_Lexorder\<close>).
\<close>

text \<open>\<open>str.isspace\<close> on one code point below 256: TAB..CR, FS..US, SPACE, NEL, NBSP.\<close>

definition py_isspace :: "char \<Rightarrow> bool" where
  "py_isspace c =
     (let n = (of_char c :: nat)
      in (9 \<le> n \<and> n \<le> 13) \<or> (28 \<le> n \<and> n \<le> 32) \<or> n = 133 \<or> n = 160)"

definition lstrip :: "string \<Rightarrow> string" where
  "lstrip s = dropWhile py_isspace s"

definition rstrip :: "string \<Rightarrow> string" where
  "rstrip s = rev (dropWhile py_isspace (rev s))"

definition strip :: "string \<Rightarrow> string" where
  "strip s = rstrip (lstrip s)"

text \<open>\<open>s.strip(chars)\<close> for a one-character argument.\<close>

definition strip_char :: "char \<Rightarrow> string \<Rightarrow> string" where
  "strip_char c s = rev (dropWhile (\<lambda>x. x = c) (rev (dropWhile (\<lambda>x. x = c) s)))"

text \<open>\<open>str.lower\<close> on one code point below 256: A..Z and the Latin-1 capitals.\<close>

definition lower_char :: "char \<Rightarrow> char" where
  "lower_char c =
     (let n = (of_char c :: nat)
      in if (65 \<le> n \<and> n \<le> 90) \<or> (192 \<le> n \<and> n \<le> 222 \<and> n \<noteq> 215)
         then char_of (n + 32) else c)"

definition lower :: "string \<Rightarrow> string" where
  "lower s = map lower_char s"

text \<open>Decimal rendering of a Python \<open>int\<close>, as \<open>str\<close> and an f-string give it.\<close>

definition digit_char :: "nat \<Rightarrow> char" where
  "digit_char d = ''0123456789'' ! d"

fun str_nat :: "nat \<Rightarrow> string" where
  "str_nat n = (if n < 10 then [digit_char n] else str_nat (n div 10) @ [digit_char (n mod 10)])"

declare str_nat.simps [simp del]

definition str_int :: "int \<Rightarrow> string" where
  "str_int i = (if i < 0 then CHR ''-'' # str_nat (nat (- i)) else str_nat (nat i))"

text \<open>\<open>sep.join(parts)\<close>.\<close>

fun join :: "string \<Rightarrow> string list \<Rightarrow> string" where
  "join sep [] = []"
| "join sep [x] = x"
| "join sep (x # y # ys) = x @ sep @ join sep (y # ys)"

section \<open>Counting fail-to-pass instances (sbl\_count\_f2p\_from\_validated\_instances.py)\<close>

datatype Row = Row (instance_id: string) (fail_to_pass: "string list") (pass_to_pass: "string list")

text \<open>The builtin operations of the report that can raise.\<close>

datatype py_error = ZeroDivisionError | ValueError

definition truediv :: "nat \<Rightarrow> nat \<Rightarrow> py_error + real" where
  "truediv a b = (if b = 0 then Inl ZeroDivisionError else Inr (real a / real b))"

fun py_min :: "nat list \<Rightarrow> py_error + nat" where
  "py_min [] = Inl ValueError"
| "py_min (x # xs) = Inr (fold min xs x)"

fun py_max :: "nat list \<Rightarrow> py_error + nat" where
  "py_max [] = Inl ValueError"
| "py_max (x # xs) = Inr (fold max xs x)"

text \<open>
  A Python \<open>dict\<close> is an association list in the order of first insertion, its keys
  distinct. \<open>dd_update k dflt f d\<close> is \<open>d[k] = f(d[k])\<close> on a \<open>defaultdict\<close> whose
  missing entries read as \<open>dflt\<close>; \<open>dd_get\<close> reads an entry the same way.
\<close>

fun dd_update :: "'k \<Rightarrow> 'v \<Rightarrow> ('v \<Rightarrow> 'v) \<Rightarrow> ('k \<times> 'v) list \<Rightarrow> ('k \<times> 'v) list" where
  "dd_update k dflt f [] = [(k, f dflt)]"
| "dd_update k dflt f ((k', v) # rest) =
     (if k' = k then (k', f v) # rest else (k', v) # dd_update k dflt f rest)"


text \<open>\<open>collections.Counter\<close>: \<open>c[k] += n\<close>, and the counter of a sequence.\<close>

definition counter_add :: "'a \<Rightarrow> nat \<Rightarrow> ('a \<times> nat) list \<Rightarrow> ('a \<times> nat) list" where
  "counter_add k n c = dd_update k 0 (\<lambda>v. v + n) c"

definition Counter :: "'a list \<Rightarrow> ('a \<times> nat) list" where
  "Counter xs = foldl (\<lambda>acc x. counter_add x 1 acc) [] xs"

record report =
  input :: string
  total_instances :: nat
  f2p_instances :: nat
  f2p_ratio :: real
  f2p_size_histogram :: "(nat \<times> nat) list"
  top_f2p_instances :: "(string \<times> nat) list"
  ptp_counts_min :: nat
  ptp_counts_max :: nat

text \<open>
  Lines 88 to 110 of \<open>main\<close>: the report built from the parsed rows. A raise of the
  division, of \<open>min\<close> or of \<open>max\<close> is the result \<open>Inl\<close>. The float quotient is the exact
  quotient here; its rounding does not enter what is proved below.
\<close>

definition f2p_report :: "string \<Rightarrow> int \<Rightarrow> Row list \<Rightarrow> py_error + report" where
  "f2p_report in_path arg_top_n rows =
     (let total = length rows;
          f2p_rows = filter (\<lambda>r. length (fail_to_pass r) > 0) rows;
          f2p_count = length f2p_rows;
          f2p_sizes = map (\<lambda>r. length (fail_to_pass r)) f2p_rows;
          ptp_sizes = map (\<lambda>r. length (pass_to_pass r)) rows;
          size_counter = Counter f2p_sizes;
          top_n = nat (max 0 arg_top_n);
          top = take top_n
                  (sort_key (\<lambda>x. (- int (snd x), fst x))
                     (map (\<lambda>r. (instance_id r, length (fail_to_pass r))) f2p_rows))
      in case (if total \<noteq> 0 then truediv f2p_count total else Inr 0) of
           Inl e \<Rightarrow> Inl e
         | Inr ratio \<Rightarrow>
             (case (if ptp_sizes \<noteq> [] then py_min ptp_sizes else Inr 0) of
                Inl e \<Rightarrow> Inl e
              | Inr mn \<Rightarrow>
                  (case (if ptp_sizes \<noteq> [] then py_max ptp_sizes else Inr 0) of
                     Inl e \<Rightarrow> Inl e
                   | Inr mx \<Rightarrow>
                       Inr \<lparr> input = in_path,
                             total_instances = total,
                             f2p_instances = f2p_count,
                             f2p_ratio = ratio,
                             f2p_size_histogram = sort_key fst size_counter,
                             top_f2p_instances = top,
                             ptp_counts_min = mn,
                             ptp_counts_max = mx \<rparr>)))"

section \<open>Loading instance records (sf\_make\_judge\_f2p\_folder\_from\_organize\_jsonl.py)\<close>




section \<open>Preparing pull2issue files (sbl\_prepare\_pull2issue\_from\_issue\_pr\_map.py)\<close>






text \<open>
  \<open>p / s\<close> of \<open>pathlib\<close> on POSIX, on paths kept as text: an absolute \<open>s\<close> replaces \<open>p\<close>,
  otherwise the two are joined by one slash. The normal form \<open>pathlib\<close> computes besides
  (doubled slashes, dot segments) is not modelled.
\<close>

definition path_join :: "string \<Rightarrow> string \<Rightarrow> string" where
  "path_join p s =
     (if s \<noteq> [] \<and> hd s = CHR ''/'' then s
      else if p \<noteq> [] \<and> last p = CHR ''/'' then p @ s
      else p @ ''/'' @ s)"













section \<open>Language inference (sbl\_step3\_prepare\_launch\_dataset.py)\<close>

text \<open>\<open>s.split(c)\<close> for a one-character separator: the pieces between its occurrences.\<close>

fun split_on :: "char \<Rightarrow> string \<Rightarrow> string list" where
  "split_on c [] = [[]]"
| "split_on c (x # xs) =
     (if x = c then [] # split_on c xs
      else (case split_on c xs of [] \<Rightarrow> [[x]] | y # ys \<Rightarrow> (x # y) # ys))"

text \<open>\<open>s.startswith(p)\<close>.\<close>

definition startswith :: "string \<Rightarrow> string \<Rightarrow> bool" where
  "startswith s p = (take (length p) s = p)"

text \<open>
  The text before the first occurrence of \<open>needle\<close> in a string, \<open>None\<close> where it does
  not occur: what a lazy group \<open>(.*?)\<close> followed by the literal \<open>needle\<close> captures.
\<close>

fun text_before :: "string \<Rightarrow> string \<Rightarrow> string option" where
  "text_before needle [] = (if needle = [] then Some [] else None)"
| "text_before needle (x # xs) =
     (if startswith (x # xs) needle then Some []
      else map_option ((#) x) (text_before needle xs))"

text \<open>
  \<open>DIFF_PATH_RE\<close> is \<open>^diff --git a/(.*?) b/.*?$\<close> in multi-line mode. The dot does not
  match a newline and \<open>^\<close>, \<open>$\<close> match at the line breaks, so a match lies within one line
  that starts with \<open>diff --git a/\<close>, and its group is the text up to the first \<open> b/\<close>
  after that; the rest of the regex takes the rest of the line. \<open>findall\<close> returns the
  groups of the matching lines in order.
\<close>

definition diff_path_match :: "string \<Rightarrow> string option" where
  "diff_path_match line =
     (if startswith line ''diff --git a/''
      then text_before '' b/'' (drop (length ''diff --git a/'') line)
      else None)"

definition DIFF_PATH_RE_findall :: "string \<Rightarrow> string list" where
  "DIFF_PATH_RE_findall txt = List.map_filter diff_path_match (split_on CHR ''\<newline>'' txt)"

definition EXT_TO_LANG :: "(string \<times> string) list" where
  "EXT_TO_LANG =
     [(''.py'', ''Python''), (''.ipynb'', ''Python''),
      (''.js'', ''JS/TS''), (''.jsx'', ''JS/TS''), (''.ts'', ''JS/TS''), (''.tsx'', ''JS/TS''),
      (''.go'', ''Go''), (''.rs'', ''Rust''), (''.java'', ''Java''), (''.kt'', ''Java''),
      (''.cs'', ''C#''), (''.c'', ''C''), (''.h'', ''C''),
      (''.cc'', ''C++''), (''.cpp'', ''C++''), (''.cxx'', ''C++''), (''.hpp'', ''C++''),
      (''.hh'', ''C++'')]"

text \<open>
  \<open>Path(p).suffix\<close> on POSIX, as \<open>pathlib\<close> defines it up to Python 3.12: the name is the
  last part of the path (empty and dot parts dropped), and the suffix is the name from its
  last dot on, provided that dot is neither the first nor the last character of the name.
\<close>

definition path_name :: "string \<Rightarrow> string" where
  "path_name p =
     (case filter (\<lambda>c. c \<noteq> [] \<and> c \<noteq> ''.'') (split_on CHR ''/'' p) of
        [] \<Rightarrow> []
      | c # cs \<Rightarrow> last (c # cs))"

definition rfind :: "char \<Rightarrow> string \<Rightarrow> nat option" where
  "rfind c s =
     (if c \<in> set s then Some (length s - 1 - length (takeWhile (\<lambda>x. x \<noteq> c) (rev s))) else None)"

definition path_suffix :: "string \<Rightarrow> string" where
  "path_suffix p =
     (let name = path_name p
      in case rfind CHR ''.'' name of
           None \<Rightarrow> []
         | Some i \<Rightarrow> if 0 < i \<and> i + 1 < length name then drop i name else [])"

text \<open>
  Lines 66 and 67: \<open>p.strip().strip('"').strip("'")\<close>, then the lower-cased suffix.
  \<open>header_suffixes\<close> lists the non-empty suffixes that lines 61 to 69 count, in order; a
  text that is empty (or \<open>None\<close>) is skipped.
\<close>

definition header_suffix :: "string \<Rightarrow> string" where
  "header_suffix p = lower (path_suffix (strip_char CHR 0x27 (strip_char CHR 0x22 (strip p))))"

text \<open>
  Lines 66 and 67: \<open>p.strip().strip('"').strip("'")\<close>, then the lower-cased suffix.
  \<open>header_suffixes\<close> lists the non-empty suffixes that lines 61 to 69 count, in order; a
  text that is empty (or \<open>None\<close>) is skipped.
\<close>

definition header_suffixes :: "string list \<Rightarrow> string list" where
  "header_suffixes diff_texts =
     concat (map (\<lambda>txt. if txt = [] then []
                         else filter (\<lambda>suffix. suffix \<noteq> [])
                                (map header_suffix (DIFF_PATH_RE_findall txt)))
                 diff_texts)"

text \<open>Lines 72 to 76: the loop over \<open>exts.items()\<close> that fills \<open>lang_counts\<close>.\<close>

definition lang_step :: "(string \<times> nat) list \<Rightarrow> string \<times> nat \<Rightarrow> (string \<times> nat) list" where
  "lang_step lang_counts en =
     (case map_of EXT_TO_LANG (fst en) of
        None \<Rightarrow> lang_counts
      | Some lang \<Rightarrow> if lang \<noteq> [] then counter_add lang (snd en) lang_counts else lang_counts)"

definition lang_counts_of :: "(string \<times> nat) list \<Rightarrow> (string \<times> nat) list" where
  "lang_counts_of exts = foldl lang_step [] exts"

text \<open>
  \<open>Counter.most_common(1)\<close>: \<open>heapq.nlargest(1, items, key=count)\<close>, that is \<open>max\<close> over the
  items in dict order, which keeps the first of several items with the largest count.
\<close>

fun most_common1 :: "('a \<times> nat) list \<Rightarrow> ('a \<times> nat) list" where
  "most_common1 [] = []"
| "most_common1 (x # xs) = [foldl (\<lambda>best y. if snd best < snd y then y else best) x xs]"

text \<open>\<open>infer_language_from_diff_text(*diff_texts)\<close>, lines 59 to 83.\<close>

definition infer_language_from_diff_text :: "string list \<Rightarrow> string \<times> (string \<times> nat) list" where
  "infer_language_from_diff_text diff_texts =
     (let exts = Counter (header_suffixes diff_texts);
          lang_counts = lang_counts_of exts
      in if lang_counts = [] then (''Python'', exts)
         else (fst (hd (most_common1 lang_counts)), exts))"

text \<open>Two diff texts for the examples.\<close>

definition demo_patch :: string where
  "demo_patch = ''diff --git a/src/x.py b/src/x.py\<newline>--- a/src/x.py\<newline>+++ b/src/x.py\<newline>''"

definition demo_test_patch :: string where
  "demo_test_patch = ''diff --git a/t/a.rs b/t/a.rs\<newline>+x\<newline>diff --git a/b.rs b/b.rs\<newline>diff --git a/README b/README''"

text \<open>
  The words of the claim: \<open>lang_hits diff_texts lang\<close> is the number of header paths,
  across all the texts, whose extension is recognized as \<open>lang\<close>. \<open>weight P c\<close> is the sum
  of the counts of a counter over the keys that satisfy \<open>P\<close>.
\<close>

definition lang_hits :: "string list \<Rightarrow> string \<Rightarrow> nat" where
  "lang_hits diff_texts lang =
     length (filter (\<lambda>suffix. map_of EXT_TO_LANG suffix = Some lang) (header_suffixes diff_texts))"

definition weight :: "('k \<Rightarrow> bool) \<Rightarrow> ('k \<times> nat) list \<Rightarrow> nat" where
  "weight P c = sum_list (map snd (filter (\<lambda>kv. P (fst kv)) c))"

section \<open>The judged dual-run evaluator (sf\_make\_judge\_f2p\_folder\_from\_organize\_jsonl.py)\<close>

subsection \<open>Values and exceptions\<close>

text \<open>
  A record of the input is what \<open>json.loads\<close> returns for an object: a dict from strings to
  JSON values. Floats are left out, no field of an instance is read as one. \<open>truthy\<close> is
  Python's truth value, \<open>py_or a b\<close> is \<open>a or b\<close>, \<open>get\<close> is \<open>dict.get(k)\<close> (\<open>None\<close> for a missing
  key) and \<open>get_default\<close> is \<open>dict.get(k, default)\<close>.
\<close>

datatype json =
    JNull | JBool bool | JInt int | JStr string | JList "json list" | JObj "(string \<times> json) list"

fun truthy :: "json \<Rightarrow> bool" where
  "truthy JNull = False"
| "truthy (JBool b) = b"
| "truthy (JInt i) = (i \<noteq> 0)"
| "truthy (JStr s) = (s \<noteq> [])"
| "truthy (JList xs) = (xs \<noteq> [])"
| "truthy (JObj kvs) = (kvs \<noteq> [])"

definition py_or :: "json \<Rightarrow> json \<Rightarrow> json" where
  "py_or a b = (if truthy a then a else b)"

definition get :: "(string \<rightharpoonup> json) \<Rightarrow> string \<Rightarrow> json" where
  "get d k = (case d k of None \<Rightarrow> JNull | Some v \<Rightarrow> v)"

definition get_default :: "(string \<rightharpoonup> json) \<Rightarrow> string \<Rightarrow> json \<Rightarrow> json" where
  "get_default d k dflt = (case d k of None \<Rightarrow> dflt | Some v \<Rightarrow> v)"

text \<open>
  A raised exception: whether its class derives from \<open>Exception\<close> (\<open>KeyboardInterrupt\<close> and
  \<open>SystemExit\<close> do not, and \<open>except Exception\<close> lets them through), \<open>type(e).__name__\<close> and
  \<open>str(e)\<close>.
\<close>

datatype exc = Exc (is_Exception: bool) (type_name: string) (message: string)

text \<open>
  The calls \<open>_run_one\<close> makes to the outside: \<open>SetupRuntime.from_launch_image\<close>, the methods
  \<open>apply_patch\<close>, \<open>send_command\<close> and \<open>cleanup\<close> of the container it returns (a container is
  named by a number), \<open>run_parser\<close>, \<open>Path.mkdir(parents=True, exist_ok=True)\<close> and
  \<open>Path.write_text\<close>. An event is a call with what it answered: an exception, nothing, a
  container, the output of a command (\<open>res.output\<close>, or \<open>str(res)\<close> where there is no such
  attribute) or a status mapping, read as the list of its items with \<open>str\<close> applied to the
  values.
\<close>

datatype call =
    FromLaunchImage json string string int
  | ApplyPatch nat string
  | SendCommand nat string
  | Cleanup nat
  | RunParser string string
  | Mkdir string
  | WriteText string string

datatype result =
    Raised exc | Done | Container nat | Output string | StatusMap "(string \<times> string) list"

type_synonym event = "call \<times> result"

text \<open>
  How \<open>Path.write_text\<close> can fail: \<open>open(path, "w")\<close> raises and the file is untouched, or the
  file is opened, which truncates it, and the write raises after \<open>n\<close> characters have reached it
  (a full disk, a quota, a lost mount).
\<close>

datatype write_fault = OpenFails exc | WriteFails exc nat

text \<open>
  \<open>SetupRuntime\<close>, \<open>run_parser\<close> and the file system are not part of this file: they are
  parameters of the model. Each answers a call as a function of the events so far, so the
  same call may be answered differently at different times; a timeout of a command is one
  of the exceptions \<open>send_command\<close> may raise. \<open>rt_repr\<close> is \<open>str\<close> on lists and dicts.
\<close>

record runtime =
  rt_repr :: "json \<Rightarrow> string"
  rt_from_launch_image :: "event list \<Rightarrow> json \<Rightarrow> string \<Rightarrow> string \<Rightarrow> int \<Rightarrow> exc + nat"
  rt_apply_patch :: "event list \<Rightarrow> nat \<Rightarrow> string \<Rightarrow> exc option"
  rt_send_command :: "event list \<Rightarrow> nat \<Rightarrow> string \<Rightarrow> exc + string"
  rt_cleanup :: "event list \<Rightarrow> nat \<Rightarrow> exc option"
  rt_run_parser :: "event list \<Rightarrow> string \<Rightarrow> string \<Rightarrow> exc + (string \<times> string) list"
  rt_mkdir :: "event list \<Rightarrow> string \<Rightarrow> exc option"
  rt_write_text :: "event list \<Rightarrow> string \<Rightarrow> string \<Rightarrow> write_fault option"

text \<open>
  The state: the text files that exist, by path, and the events so far. Statements run in
  the monad of state and exceptions: \<open>Inl e\<close> is the exception \<open>e\<close> raised, \<open>Inr x\<close> the value \<open>x\<close>
  returned.
\<close>

record world =
  files :: "string \<rightharpoonup> string"
  trace :: "event list"

type_synonym 'a prog = "world \<Rightarrow> (exc + 'a) \<times> world"

definition ret :: "'a \<Rightarrow> 'a prog" where
  "ret x w = (Inr x, w)"

definition bind_prog :: "'a prog \<Rightarrow> ('a \<Rightarrow> 'b prog) \<Rightarrow> 'b prog" where
  "bind_prog m f w = (case m w of (Inl e, w') \<Rightarrow> (Inl e, w') | (Inr x, w') \<Rightarrow> f x w')"

definition when_prog :: "bool \<Rightarrow> unit prog \<Rightarrow> unit prog" where
  "when_prog b m = (if b then m else ret ())"

text \<open>
  \<open>try: body finally: fin\<close>: \<open>fin\<close> runs whatever \<open>body\<close> did; if \<open>fin\<close> raises, that exception
  replaces the outcome of \<open>body\<close>, otherwise the outcome of \<open>body\<close> stands.
  \<open>try: body except Exception as e: handler\<close> runs the handler on an exception that derives
  from \<open>Exception\<close> and lets any other through.
\<close>

definition try_finally :: "'a prog \<Rightarrow> unit prog \<Rightarrow> 'a prog" where
  "try_finally body fin w =
     (case body w of
        (r, w') \<Rightarrow> (case fin w' of (Inl e, w'') \<Rightarrow> (Inl e, w'') | (Inr u, w'') \<Rightarrow> (r, w'')))"

definition try_except_Exception :: "'a prog \<Rightarrow> (exc \<Rightarrow> 'a prog) \<Rightarrow> 'a prog" where
  "try_except_Exception body handler w =
     (case body w of
        (Inl e, w') \<Rightarrow> if is_Exception e then handler e w' else (Inl e, w')
      | (Inr x, w') \<Rightarrow> (Inr x, w'))"

subsection \<open>Calls to the outside\<close>

text \<open>Every call is appended to the trace with its answer.\<close>

definition record_call :: "call \<Rightarrow> result \<Rightarrow> world \<Rightarrow> world" where
  "record_call c r w = w\<lparr>trace := trace w @ [(c, r)]\<rparr>"

definition from_launch_image :: "runtime \<Rightarrow> json \<Rightarrow> string \<Rightarrow> string \<Rightarrow> int \<Rightarrow> nat prog" where
  "from_launch_image rt img iid platform command_timeout w =
     (let c = FromLaunchImage img iid platform command_timeout
      in case rt_from_launch_image rt (trace w) img iid platform command_timeout of
           Inl e \<Rightarrow> (Inl e, record_call c (Raised e) w)
         | Inr container \<Rightarrow> (Inr container, record_call c (Container container) w))"

definition apply_patch :: "runtime \<Rightarrow> nat \<Rightarrow> string \<Rightarrow> unit prog" where
  "apply_patch rt container patch w =
     (case rt_apply_patch rt (trace w) container patch of
        Some e \<Rightarrow> (Inl e, record_call (ApplyPatch container patch) (Raised e) w)
      | None \<Rightarrow> (Inr (), record_call (ApplyPatch container patch) Done w))"

definition send_command :: "runtime \<Rightarrow> nat \<Rightarrow> string \<Rightarrow> string prog" where
  "send_command rt container cmd w =
     (case rt_send_command rt (trace w) container cmd of
        Inl e \<Rightarrow> (Inl e, record_call (SendCommand container cmd) (Raised e) w)
      | Inr out \<Rightarrow> (Inr out, record_call (SendCommand container cmd) (Output out) w))"

definition cleanup :: "runtime \<Rightarrow> nat \<Rightarrow> unit prog" where
  "cleanup rt container w =
     (case rt_cleanup rt (trace w) container of
        Some e \<Rightarrow> (Inl e, record_call (Cleanup container) (Raised e) w)
      | None \<Rightarrow> (Inr (), record_call (Cleanup container) Done w))"

definition run_parser :: "runtime \<Rightarrow> string \<Rightarrow> string \<Rightarrow> (string \<times> string) list prog" where
  "run_parser rt parser raw w =
     (case rt_run_parser rt (trace w) parser raw of
        Inl e \<Rightarrow> (Inl e, record_call (RunParser parser raw) (Raised e) w)
      | Inr status_map \<Rightarrow>
          (Inr status_map, record_call (RunParser parser raw) (StatusMap status_map) w))"

text \<open>
  \<open>Path.exists\<close>, \<open>Path.mkdir\<close> (directories are not tracked, the call can only fail) and
  \<open>Path.write_text\<close>, which replaces the content of the file at the path it is given.
\<close>

definition path_exists :: "string \<Rightarrow> world \<Rightarrow> bool" where
  "path_exists path w = (files w path \<noteq> None)"

definition mkdir :: "runtime \<Rightarrow> string \<Rightarrow> unit prog" where
  "mkdir rt path w =
     (case rt_mkdir rt (trace w) path of
        Some e \<Rightarrow> (Inl e, record_call (Mkdir path) (Raised e) w)
      | None \<Rightarrow> (Inr (), record_call (Mkdir path) Done w))"

definition write_text :: "runtime \<Rightarrow> string \<Rightarrow> string \<Rightarrow> unit prog" where
  "write_text rt path txt w =
     (case rt_write_text rt (trace w) path txt of
        Some (OpenFails e) \<Rightarrow> (Inl e, record_call (WriteText path txt) (Raised e) w)
      | Some (WriteFails e n) \<Rightarrow>
          (Inl e, record_call (WriteText path txt) (Raised e)
                    (w\<lparr>files := (files w)(path \<mapsto> take n txt)\<rparr>))
      | None \<Rightarrow>
          (Inr (), record_call (WriteText path txt) Done (w\<lparr>files := (files w)(path \<mapsto> txt)\<rparr>)))"

text \<open>\<open>Path.parent\<close> of a path with at least two parts: the path up to its last slash.\<close>

definition path_parent :: "string \<Rightarrow> string" where
  "path_parent p = rev (drop 1 (dropWhile (\<lambda>c. c \<noteq> CHR ''/'') (rev p)))"

subsection \<open>The evaluator\<close>

definition PREV_FILE_NAME :: string where
  "PREV_FILE_NAME = ''test_output_prev_apply.txt''"

definition AFTER_FILE_NAME :: string where
  "AFTER_FILE_NAME = ''test_output_after_apply.txt''"

text \<open>\<open>str(v)\<close>, and \<open>_join_cmds\<close> (lines 45 to 59).\<close>

definition py_str :: "runtime \<Rightarrow> json \<Rightarrow> string" where
  "py_str rt v =
     (case v of
        JStr s \<Rightarrow> s
      | JNull \<Rightarrow> ''None''
      | JBool b \<Rightarrow> (if b then ''True'' else ''False'')
      | JInt i \<Rightarrow> str_int i
      | JList xs \<Rightarrow> rt_repr rt v
      | JObj kvs \<Rightarrow> rt_repr rt v)"

definition join_cmds :: "runtime \<Rightarrow> json \<Rightarrow> string" where
  "join_cmds rt cmds =
     (case cmds of
        JNull \<Rightarrow> []
      | JStr s \<Rightarrow> strip s
      | JList cs \<Rightarrow>
          join '' ; ''
            (filter (\<lambda>s. s \<noteq> []) (map (\<lambda>c. strip (py_str rt c)) (filter (\<lambda>c. c \<noteq> JNull) cs)))
      | JBool b \<Rightarrow> strip (py_str rt cmds)
      | JInt i \<Rightarrow> strip (py_str rt cmds)
      | JObj kvs \<Rightarrow> strip (py_str rt cmds))"

text \<open>\<open>_write_text\<close> (lines 77 to 79): the parent directory is created, then the text is written.\<close>

definition write_text_file :: "runtime \<Rightarrow> string \<Rightarrow> string \<Rightarrow> unit prog" where
  "write_text_file rt path txt =
     bind_prog (mkdir rt (path_parent path)) (\<lambda>_. write_text rt path txt)"

text \<open>
  Lines 136 to 141: the text a variant run returns for the raw log and the status mapping.
\<close>

definition variant_output :: "string \<Rightarrow> (string \<times> string) list \<Rightarrow> string" where
  "variant_output raw status_map =
     (let has_fail = list_ex (\<lambda>v. lower v = ''fail'') (map snd status_map);
          exit_code = (if has_fail then 1 else 0)
      in rstrip raw @ ''\<newline>'' @ (''echo OMNIGRIL_EXIT_CODE='' @ str_int exit_code @ ''\<newline>''))"

text \<open>
  The variables of \<open>_run_one\<close> that the nested \<open>run_variant\<close> reads (lines 89 to 109).
  \<open>variant_body\<close> is the body of its \<open>try\<close> (lines 126 to 141), \<open>run_variant\<close> lines 118 to 146:
  the container is acquired outside the \<open>try\<close>, and the \<open>finally\<close> clause cleans it up,
  swallowing what \<open>except Exception\<close> catches.
\<close>

record captured =
  cap_image :: json
  cap_instance_id :: string
  cap_platform :: string
  cap_timeout_s :: int
  cap_test_patch :: string
  cap_patch :: string
  cap_rebuild_cmd :: string
  cap_test_cmd :: string
  cap_print_cmd :: string
  cap_parser :: json

definition variant_body :: "runtime \<Rightarrow> captured \<Rightarrow> bool \<Rightarrow> nat \<Rightarrow> string prog" where
  "variant_body rt cv apply_solution container =
     bind_prog (when_prog (strip (cap_test_patch cv) \<noteq> [])
                  (apply_patch rt container (cap_test_patch cv))) (\<lambda>_.
     bind_prog (when_prog (apply_solution \<and> strip (cap_patch cv) \<noteq> [])
                  (apply_patch rt container (cap_patch cv))) (\<lambda>_.
     bind_prog (when_prog (cap_rebuild_cmd cv \<noteq> [])
                  (bind_prog (send_command rt container (cap_rebuild_cmd cv)) (\<lambda>_. ret ()))) (\<lambda>_.
     bind_prog (send_command rt container (cap_test_cmd cv)) (\<lambda>_.
     bind_prog (send_command rt container (cap_print_cmd cv)) (\<lambda>raw.
     bind_prog (run_parser rt (py_str rt (cap_parser cv)) raw) (\<lambda>status_map.
       ret (variant_output raw status_map)))))))"

definition run_variant :: "runtime \<Rightarrow> captured \<Rightarrow> string \<Rightarrow> bool \<Rightarrow> string prog" where
  "run_variant rt cv label apply_solution =
     bind_prog (from_launch_image rt (cap_image cv) (cap_instance_id cv) (cap_platform cv)
                  (cap_timeout_s cv)) (\<lambda>container.
       try_finally (variant_body rt cv apply_solution container)
         (try_except_Exception (cleanup rt container) (\<lambda>e. ret ())))"

definition instance_id_of :: "runtime \<Rightarrow> (string \<rightharpoonup> json) \<Rightarrow> string" where
  "instance_id_of rt inst = py_str rt (py_or (get inst ''instance_id'') (JStr []))"

definition image_of :: "(string \<rightharpoonup> json) \<Rightarrow> json" where
  "image_of inst = py_or (get inst ''docker_image'') (get inst ''image'')"

definition parser_of :: "(string \<rightharpoonup> json) \<Rightarrow> json" where
  "parser_of inst =
     py_or (get_default inst ''log_parser'' (get_default inst ''parser'' (JStr []))) (JStr [])"

definition captured_of :: "runtime \<Rightarrow> (string \<rightharpoonup> json) \<Rightarrow> string \<Rightarrow> int \<Rightarrow> captured" where
  "captured_of rt inst platform timeout_s =
     \<lparr> cap_image = image_of inst,
       cap_instance_id = instance_id_of rt inst,
       cap_platform = platform,
       cap_timeout_s = timeout_s,
       cap_test_patch = py_str rt (py_or (get inst ''test_patch'') (JStr [])),
       cap_patch = py_str rt (py_or (get inst ''patch'') (JStr [])),
       cap_rebuild_cmd = join_cmds rt (get inst ''rebuild_cmds''),
       cap_test_cmd = join_cmds rt (get inst ''test_cmds''),
       cap_print_cmd = join_cmds rt (get inst ''print_cmds''),
       cap_parser = parser_of inst \<rparr>"

text \<open>
  Lines 148 to 158: both variants are run, then both artifacts are written; the handler of
  \<open>except Exception\<close> creates the directory of the instance and writes \<open>error.txt\<close>. Its two calls
  are not inside a \<open>try\<close> of their own.
\<close>

definition run_both ::
  "runtime \<Rightarrow> captured \<Rightarrow> string \<Rightarrow> string \<Rightarrow> string \<Rightarrow> (string \<times> string option) prog" where
  "run_both rt cv inst_out prev_path after_path =
     try_except_Exception
       (bind_prog (run_variant rt cv ''prev'' False) (\<lambda>prev_out.
        bind_prog (run_variant rt cv ''after'' True) (\<lambda>after_out.
        bind_prog (write_text_file rt prev_path prev_out) (\<lambda>_.
        bind_prog (write_text_file rt after_path after_out) (\<lambda>_.
          ret (''ok'', None))))))
       (\<lambda>e.
        bind_prog (mkdir rt inst_out) (\<lambda>_.
        bind_prog (write_text_file rt (path_join inst_out ''error.txt'')
                     (type_name e @ '': '' @ message e @ ''\<newline>'')) (\<lambda>_.
          ret (''error'', Some (type_name e @ '': '' @ message e)))))"

text \<open>
  \<open>_run_one\<close> (lines 82 to 158). The checks run in the order of the source: the instance id,
  the skip check, the image, the test commands, the print commands, the parser. The
  assignments between them have no effect, so they are computed at once.
\<close>

definition run_one ::
  "runtime \<Rightarrow> (string \<rightharpoonup> json) \<Rightarrow> string \<Rightarrow> string \<Rightarrow> int \<Rightarrow> bool \<Rightarrow> (string \<times> string option) prog" where
  "run_one rt inst platform out_dir timeout_s overwrite =
     (let cv = captured_of rt inst platform timeout_s;
          inst_out = path_join out_dir (cap_instance_id cv);
          prev_path = path_join inst_out PREV_FILE_NAME;
          after_path = path_join inst_out AFTER_FILE_NAME
      in (\<lambda>w.
        if cap_instance_id cv = [] then ret (''error'', Some ''missing instance_id'') w
        else if \<not> overwrite \<and> path_exists prev_path w \<and> path_exists after_path w
          then ret (''skip'', None) w
        else if \<not> truthy (cap_image cv) then ret (''error'', Some ''missing docker_image'') w
        else if cap_test_cmd cv = [] then ret (''error'', Some ''missing test_cmds'') w
        else if cap_print_cmd cv = []
          then ret (''error'', Some ''missing print_cmds (needed to judge pass/fail)'') w
        else if strip (py_str rt (cap_parser cv)) = []
          then ret (''error'', Some ''missing log_parser/parser (needed to judge pass/fail)'') w
        else run_both rt cv inst_out prev_path after_path w))"

subsection \<open>Notions the properties are stated with\<close>


datatype field = InstanceId | Image | TestCommands | PrintCommands | ParserId



fun rejected :: "runtime \<Rightarrow> (string \<rightharpoonup> json) \<Rightarrow> field \<Rightarrow> bool" where
  "rejected rt inst InstanceId = (instance_id_of rt inst = [])"
| "rejected rt inst Image = (\<not> truthy (image_of inst))"
| "rejected rt inst TestCommands = (join_cmds rt (get inst ''test_cmds'') = [])"
| "rejected rt inst PrintCommands = (join_cmds rt (get inst ''print_cmds'') = [])"
| "rejected rt inst ParserId = (strip (py_str rt (parser_of inst)) = [])"



text \<open>The skip check of lines 97 and 98 is reached and holds.\<close>

definition skip_applies ::
  "runtime \<Rightarrow> (string \<rightharpoonup> json) \<Rightarrow> string \<Rightarrow> bool \<Rightarrow> world \<Rightarrow> bool" where
  "skip_applies rt inst out_dir overwrite w =
     (instance_id_of rt inst \<noteq> [] \<and> \<not> overwrite \<and>
      path_exists (path_join (path_join out_dir (instance_id_of rt inst)) PREV_FILE_NAME) w \<and>
      path_exists (path_join (path_join out_dir (instance_id_of rt inst)) AFTER_FILE_NAME) w)"

text \<open>
  Events of a container in use; the successful acquisitions and the cleanups of a trace; the
  exceptions raised by events other than cleanups; whether some cleanup raised an exception
  that \<open>except Exception\<close> does not catch. \<open>session_prog p\<close>: \<open>p\<close> adds only events of a container
  in use to the trace, leaves the files alone, and raises what any of its events raised.
\<close>

fun session_event :: "event \<Rightarrow> bool" where
  "session_event (ApplyPatch c p, r) = True"
| "session_event (SendCommand c cmd, r) = True"
| "session_event (RunParser p raw, r) = True"
| "session_event (other, r) = False"

fun is_acquired :: "event \<Rightarrow> bool" where
  "is_acquired (FromLaunchImage img iid platform t, Container c) = True"
| "is_acquired (other, r) = False"

fun is_cleanup :: "event \<Rightarrow> bool" where
  "is_cleanup (Cleanup c, r) = True"
| "is_cleanup (other, r) = False"

fun raised_exc :: "event \<Rightarrow> exc option" where
  "raised_exc (c, Raised e) = Some e"
| "raised_exc (c, other) = None"

definition raised_before_cleanup :: "event list \<Rightarrow> exc list" where
  "raised_before_cleanup evs = List.map_filter raised_exc (filter (\<lambda>ev. \<not> is_cleanup ev) evs)"

definition cleanup_escapes :: "event list \<Rightarrow> bool" where
  "cleanup_escapes evs =
     list_ex (\<lambda>ev. is_cleanup ev \<and> (case raised_exc ev of Some e \<Rightarrow> \<not> is_Exception e | None \<Rightarrow> False))
       evs"

definition session_prog :: "'a prog \<Rightarrow> bool" where
  "session_prog p =
     (\<forall>w. \<exists>evs. trace (snd (p w)) = trace w @ evs \<and> files (snd (p w)) = files w \<and>
             list_all session_event evs \<and>
             (\<forall>e. Some e \<in> raised_exc ` set evs \<longrightarrow> fst (p w) = Inl e))"

text \<open>The sixteen ways to write \<open>fail\<close> in upper and lower case.\<close>

definition fail_spellings :: "string list" where
  "fail_spellings =
     concat (map (\<lambda>f. concat (map (\<lambda>a. concat (map (\<lambda>i. map (\<lambda>l. [f, a, i, l]) ''lL'') ''iI'')) ''aA''))
       ''fF'')"

subsection \<open>Sample runs\<close>

text \<open>
  \<open>demo_rt\<close> never fails: the print command answers a log with trailing blanks, the parser
  reports one failed test. \<open>demo_bare\<close> has only an instance id; in \<open>demo_done\<close> both artifacts of
  \<open>out/a\<close> exist, in \<open>demo_fresh\<close> nothing exists.
\<close>

definition demo_rt :: runtime where
  "demo_rt =
     \<lparr> rt_repr = (\<lambda>v. ''[]''),
       rt_from_launch_image = (\<lambda>tr img iid platform t. Inr (length tr)),
       rt_apply_patch = (\<lambda>tr c p. None),
       rt_send_command = (\<lambda>tr c cmd. Inr (if cmd = ''cat log'' then ''t1 FAILED  \<newline>'' else [])),
       rt_cleanup = (\<lambda>tr c. None),
       rt_run_parser = (\<lambda>tr p raw. Inr [(''t1'', ''FAIL'')]),
       rt_mkdir = (\<lambda>tr p. None),
       rt_write_text = (\<lambda>tr p t. None) \<rparr>"

definition demo_bare :: "string \<rightharpoonup> json" where
  "demo_bare = [''instance_id'' \<mapsto> JStr ''a'']"

definition demo_done :: world where
  "demo_done =
     \<lparr> files = [''out/a/test_output_prev_apply.txt'' \<mapsto> ''x'',
                 ''out/a/test_output_after_apply.txt'' \<mapsto> ''y''],
       trace = [] \<rparr>"

definition demo_fresh :: world where
  "demo_fresh = \<lparr> files = Map.empty, trace = [] \<rparr>"

text \<open>
  A complete instance, the variables captured from it, the text a variant run returns for
  it under \<open>demo_rt\<close> and the events of such a run with container \<open>c\<close>.
\<close>

definition demo_inst :: "string \<rightharpoonup> json" where
  "demo_inst =
     [''instance_id'' \<mapsto> JStr ''a'', ''docker_image'' \<mapsto> JStr ''img'',
      ''test_cmds'' \<mapsto> JList [JStr ''pytest''], ''print_cmds'' \<mapsto> JStr ''cat log'',
      ''log_parser'' \<mapsto> JStr ''pytest'']"

definition demo_cv :: captured where
  "demo_cv =
     \<lparr> cap_image = JStr ''img'', cap_instance_id = ''a'', cap_platform = ''linux'',
       cap_timeout_s = 5400, cap_test_patch = [], cap_patch = [], cap_rebuild_cmd = [],
       cap_test_cmd = ''pytest'', cap_print_cmd = ''cat log'', cap_parser = JStr ''pytest'' \<rparr>"

definition demo_out :: string where
  "demo_out = ''t1 FAILED\<newline>echo OMNIGRIL_EXIT_CODE=1\<newline>''"

definition demo_run_events :: "nat \<Rightarrow> event list" where
  "demo_run_events c =
     [(FromLaunchImage (JStr ''img'') ''a'' ''linux'' 5400, Container c),
      (SendCommand c ''pytest'', Output []),
      (SendCommand c ''cat log'', Output ''t1 FAILED  \<newline>''),
      (RunParser ''pytest'' ''t1 FAILED  \<newline>'', StatusMap [(''t1'', ''FAIL'')]),
      (Cleanup c, Done)]"

text \<open>
  \<open>demo_no_image\<close>: the image cannot be launched and the output directory is read-only.
  \<open>demo_disk_full\<close>: the disk fills up three characters into the second artifact.
\<close>

definition demo_no_image :: runtime where
  "demo_no_image =
     demo_rt\<lparr> rt_from_launch_image :=
                 (\<lambda>tr img iid platform t. Inl (Exc True ''RuntimeError'' ''no such image'')),
              rt_mkdir := (\<lambda>tr p. Some (Exc True ''OSError'' ''Read-only file system'')) \<rparr>"


text \<open>
  \<open>demo_timeout\<close>: the test command times out; the events of a variant run under it.
\<close>

definition demo_timeout :: runtime where
  "demo_timeout =
     demo_rt\<lparr> rt_send_command :=
                 (\<lambda>tr c cmd. if cmd = ''pytest'' then Inl (Exc True ''TimeoutError'' ''timed out'')
                              else Inr []) \<rparr>"

text \<open>
  \<open>demo_timeout\<close>: the test command times out; the events of a variant run under it.
\<close>

definition demo_timeout_events :: "event list" where
  "demo_timeout_events =
     [(FromLaunchImage (JStr ''img'') ''a'' ''linux'' 5400, Container 0),
      (SendCommand 0 ''pytest'', Raised (Exc True ''TimeoutError'' ''timed out'')),
      (Cleanup 0, Done)]"

section \<open>Theorems\<close>

subsection \<open>The fail-to-pass report\<close>

text \<open>
  Claim C9. The report computation never raises, whatever the rows: the division is
  reached only with a non-zero total, \<open>min\<close> and \<open>max\<close> only with a non-empty sequence.
  On the empty list of rows the ratio is 0.0 and the minimum and maximum of the
  pass-to-pass counts are both 0.
\<close>

theorem f2p_report_total:
  "(\<exists>r. f2p_report in_path arg_top_n rows = Inr r) \<and>
   (\<exists>r. f2p_report in_path arg_top_n [] = Inr r \<and> f2p_ratio r = 0 \<and>
        ptp_counts_min r = 0 \<and> ptp_counts_max r = 0 \<and> total_instances r = 0)"
proof
  show "\<exists>r. f2p_report in_path arg_top_n rows = Inr r"
  proof (cases rows)
    case Nil
    then show ?thesis by (simp add: f2p_report_def)
  next
    case (Cons a as)
    then show ?thesis by (simp add: f2p_report_def truediv_def Let_def)
  qed
next
  show "\<exists>r. f2p_report in_path arg_top_n [] = Inr r \<and> f2p_ratio r = 0 \<and>
        ptp_counts_min r = 0 \<and> ptp_counts_max r = 0 \<and> total_instances r = 0"
    by (simp add: f2p_report_def)
qed

subsection \<open>The instance loader\<close>





subsection \<open>The pull2issue files\<close>

lemma map_fst_dd_update:
  "map fst (dd_update k dflt f d) = (if k \<in> fst ` set d then map fst d else map fst d @ [k])"
proof (induction d)
  case Nil
  then show ?case by simp
next
  case (Cons kv d)
  obtain k' v where kv: "kv = (k', v)" by (cases kv)
  show ?case
  proof (cases "k' = k")
    case True
    then show ?thesis by (simp add: kv)
  next
    case False
    with Cons.IH show ?thesis by (simp add: kv)
  qed
qed

lemma dd_update_keys: "fst ` set (dd_update k dflt f d) = insert k (fst ` set d)"
proof -
  have "set (map fst (dd_update k dflt f d)) = insert k (set (map fst d))"
    unfolding map_fst_dd_update by auto
  then show ?thesis by simp
qed

lemma dd_update_distinct: "distinct (map fst d) \<Longrightarrow> distinct (map fst (dd_update k dflt f d))"
  unfolding map_fst_dd_update by auto






















subsection \<open>Language inference\<close>

lemma weight_Nil: "weight P [] = 0"
  by (simp add: weight_def)

lemma weight_counter_add: "weight P (counter_add k n c) = weight P c + (if P k then n else 0)"
  unfolding counter_add_def by (induction c) (auto simp: weight_def)

lemma weight_Counter_fold:
  "weight P (foldl (\<lambda>acc x. counter_add x 1 acc) c xs) = weight P c + length (filter P xs)"
  by (induction xs arbitrary: c) (simp_all add: weight_counter_add)

lemma weight_Counter: "weight P (Counter xs) = length (filter P xs)"
  unfolding Counter_def weight_Counter_fold by (simp add: weight_Nil)

lemma counter_add_keys: "fst ` set (counter_add k n c) = insert k (fst ` set c)"
  by (simp add: counter_add_def dd_update_keys)

lemma counter_add_distinct: "distinct (map fst c) \<Longrightarrow> distinct (map fst (counter_add k n c))"
  by (simp add: counter_add_def dd_update_distinct)

lemma Counter_fold_keys:
  "fst ` set (foldl (\<lambda>acc x. counter_add x 1 acc) c xs) = fst ` set c \<union> set xs"
  by (induction xs arbitrary: c) (auto simp: counter_add_keys)

lemma Counter_keys: "fst ` set (Counter xs) = set xs"
  unfolding Counter_def Counter_fold_keys by simp

lemma lang_counts_of_fold: "lang_counts_of exts = foldl lang_step [] exts"
  by (simp add: lang_counts_of_def)

lemma EXT_TO_LANG_nonempty: "map_of EXT_TO_LANG ext = Some lang \<Longrightarrow> lang \<noteq> []"
  by (drule map_of_SomeD) (auto simp: EXT_TO_LANG_def)

lemma weight_lang_step:
  "weight (\<lambda>l. l = L) (lang_step acc en) =
   weight (\<lambda>l. l = L) acc + (if map_of EXT_TO_LANG (fst en) = Some L then snd en else 0)"
  by (auto simp: lang_step_def weight_counter_add EXT_TO_LANG_nonempty split: option.splits)

lemma weight_lang_fold:
  "weight (\<lambda>l. l = L) (foldl lang_step acc exts) =
   weight (\<lambda>l. l = L) acc + weight (\<lambda>e. map_of EXT_TO_LANG e = Some L) exts"
proof (induction exts arbitrary: acc)
  case Nil
  then show ?case by (simp add: weight_Nil)
next
  case (Cons en exts)
  show ?case
    by (simp add: Cons.IH weight_lang_step) (simp add: weight_def)
qed

lemma distinct_lang_step: "distinct (map fst acc) \<Longrightarrow> distinct (map fst (lang_step acc en))"
  by (simp add: lang_step_def counter_add_distinct split: option.splits)

lemma distinct_lang_fold:
  "distinct (map fst acc) \<Longrightarrow> distinct (map fst (foldl lang_step acc exts))"
  by (induction exts arbitrary: acc) (simp_all add: distinct_lang_step)

lemma lang_fold_unrecognized:
  "\<forall>en \<in> set exts. map_of EXT_TO_LANG (fst en) = None \<Longrightarrow> foldl lang_step acc exts = acc"
  by (induction exts arbitrary: acc) (simp_all add: lang_step_def)

lemma weight_key_distinct:
  "distinct (map fst c) \<Longrightarrow> (k, n) \<in> set c \<Longrightarrow> weight (\<lambda>l. l = k) c = n"
proof (induction c)
  case Nil
  then show ?case by simp
next
  case (Cons kv c)
  show ?case
  proof (cases "kv = (k, n)")
    case True
    with Cons.prems(1) have "filter (\<lambda>kv. fst kv = k) c = []"
      by (auto simp: filter_empty_conv image_iff)
    with True show ?thesis by (simp add: weight_def)
  next
    case False
    with Cons.prems have in_c: "(k, n) \<in> set c" and "fst kv \<noteq> k"
      by (auto simp: image_iff)
    with Cons show ?thesis by (simp add: weight_def)
  qed
qed

lemma weight_key_absent: "k \<notin> fst ` set c \<Longrightarrow> weight (\<lambda>l. l = k) c = 0"
  by (induction c) (auto simp: weight_def)

lemma fold_best:
  fixes x :: "'a \<times> nat"
  shows "foldl (\<lambda>best y. if snd best < snd y then y else best) x xs \<in> set (x # xs) \<and>
   (\<forall>y \<in> set (x # xs). snd y \<le> snd (foldl (\<lambda>best y. if snd best < snd y then y else best) x xs))"
proof (induction xs arbitrary: x)
  case Nil
  then show ?case by simp
next
  case (Cons a xs)
  show ?case
  proof (cases "snd x < snd a")
    case True
    with Cons.IH [of a] show ?thesis by (auto intro: less_imp_le order_trans)
  next
    case False
    with Cons.IH [of x] show ?thesis by (auto intro: order_trans)
  qed
qed

lemma most_common1_max:
  assumes "c \<noteq> []"
  shows "hd (most_common1 c) \<in> set c \<and> (\<forall>y \<in> set c. snd y \<le> snd (hd (most_common1 c)))"
proof -
  from assms obtain x xs where c: "c = x # xs" by (cases c) auto
  from fold_best [of x xs] show ?thesis by (simp add: c)
qed

lemma lang_hits_weight:
  "lang_hits diff_texts L = weight (\<lambda>l. l = L) (lang_counts_of (Counter (header_suffixes diff_texts)))"
  by (simp add: lang_hits_def lang_counts_of_fold weight_lang_fold weight_Nil weight_Counter)

text \<open>
  Claim C8. When no header path of the texts has a recognized extension, the inferred
  language is Python; this covers two empty texts. Otherwise the inferred language has at
  least one header path with an extension of its own, and no language has more header
  paths than it has (among several languages with the largest number, one of them is
  returned).
\<close>

theorem infer_language_most_frequent:
  "((\<forall>lang. lang_hits diff_texts lang = 0) \<longrightarrow>
      fst (infer_language_from_diff_text diff_texts) = ''Python'') \<and>
   ((\<exists>lang. 0 < lang_hits diff_texts lang) \<longrightarrow>
      0 < lang_hits diff_texts (fst (infer_language_from_diff_text diff_texts)) \<and>
      (\<forall>lang. lang_hits diff_texts lang \<le>
              lang_hits diff_texts (fst (infer_language_from_diff_text diff_texts)))) \<and>
   fst (infer_language_from_diff_text [[], []]) = ''Python''"
proof (intro conjI impI)
  define exts where "exts = Counter (header_suffixes diff_texts)"
  define c where "c = lang_counts_of exts"
  have hits: "lang_hits diff_texts L = weight (\<lambda>l. l = L) c" for L
    by (simp add: lang_hits_weight c_def exts_def)
  have dist: "distinct (map fst c)"
    by (simp add: c_def lang_counts_of_fold distinct_lang_fold)
  {
    assume none: "\<forall>lang. lang_hits diff_texts lang = 0"
    have "\<forall>en \<in> set exts. map_of EXT_TO_LANG (fst en) = None"
    proof
      fix en assume "en \<in> set exts"
      then have "fst en \<in> set (header_suffixes diff_texts)"
        using Counter_keys [of "header_suffixes diff_texts"] by (auto simp: exts_def)
      show "map_of EXT_TO_LANG (fst en) = None"
      proof (rule ccontr)
        assume "map_of EXT_TO_LANG (fst en) \<noteq> None"
        then obtain L where "map_of EXT_TO_LANG (fst en) = Some L" by auto
        with \<open>fst en \<in> set (header_suffixes diff_texts)\<close>
        have "filter (\<lambda>suffix. map_of EXT_TO_LANG suffix = Some L) (header_suffixes diff_texts) \<noteq> []"
          by (auto simp: filter_empty_conv)
        then have "0 < lang_hits diff_texts L" by (simp add: lang_hits_def)
        with none show False by simp
      qed
    qed
    then have "c = []"
      by (simp add: c_def lang_counts_of_fold lang_fold_unrecognized)
    then show "fst (infer_language_from_diff_text diff_texts) = ''Python''"
      by (simp add: infer_language_from_diff_text_def c_def exts_def Let_def)
  }
  {
    assume "\<exists>lang. 0 < lang_hits diff_texts lang"
    then obtain L0 where L0: "0 < lang_hits diff_texts L0" by blast
    then have ne: "c \<noteq> []" by (auto simp: hits weight_Nil)
    define best where "best = hd (most_common1 c)"
    from most_common1_max [OF ne] have b_in: "best \<in> set c"
      and b_max: "\<forall>y \<in> set c. snd y \<le> snd best"
      by (simp_all add: best_def)
    have res: "fst (infer_language_from_diff_text diff_texts) = fst best"
      using ne by (simp add: infer_language_from_diff_text_def c_def exts_def best_def Let_def)
    from b_in have "(fst best, snd best) \<in> set c" by simp
    from weight_key_distinct [OF dist this]
    have hb: "lang_hits diff_texts (fst best) = snd best" by (simp add: hits)
    have le: "lang_hits diff_texts L \<le> snd best" for L
    proof (cases "L \<in> fst ` set c")
      case True
      then obtain n where n: "(L, n) \<in> set c" by auto
      from weight_key_distinct [OF dist n] have "lang_hits diff_texts L = n" by (simp add: hits)
      with b_max n show ?thesis by auto
    next
      case False
      then show ?thesis by (simp add: hits weight_key_absent)
    qed
    from le [of L0] L0 hb
    show "0 < lang_hits diff_texts (fst (infer_language_from_diff_text diff_texts))"
      by (simp add: res)
    from le hb
    show "\<forall>lang. lang_hits diff_texts lang \<le>
              lang_hits diff_texts (fst (infer_language_from_diff_text diff_texts))"
      by (simp add: res)
  }
  show "fst (infer_language_from_diff_text [[], []]) = ''Python''"
    by (simp add: infer_language_from_diff_text_def header_suffixes_def Counter_def
        lang_counts_of_def)
qed

lemma demo_findall:
  "DIFF_PATH_RE_findall demo_patch = [''src/x.py'']"
  "DIFF_PATH_RE_findall demo_test_patch = [''t/a.rs'', ''b.rs'', ''README'']"
  by (simp_all add: DIFF_PATH_RE_findall_def demo_patch_def demo_test_patch_def
      diff_path_match_def startswith_def List.map_filter_simps)

lemma demo_header_suffix:
  "header_suffix ''src/x.py'' = ''.py''" "header_suffix ''t/a.rs'' = ''.rs''"
  "header_suffix ''b.rs'' = ''.rs''" "header_suffix ''README'' = []"
  by (simp_all add: header_suffix_def strip_def lstrip_def rstrip_def py_isspace_def
      strip_char_def path_suffix_def path_name_def rfind_def lower_def lower_char_def)

lemma demo_suffixes: "header_suffixes [demo_patch, demo_test_patch] = [''.py'', ''.rs'', ''.rs'']"
proof -
  have "demo_patch \<noteq> []" "demo_test_patch \<noteq> []"
    by (simp_all add: demo_patch_def demo_test_patch_def)
  then show ?thesis
    by (simp add: header_suffixes_def demo_findall demo_header_suffix)
qed

lemma demo_hits:
  "lang_hits [demo_patch, demo_test_patch] ''Rust'' = 2"
  "lang_hits [demo_patch, demo_test_patch] ''Python'' = 1"
  by (simp_all add: lang_hits_def demo_suffixes EXT_TO_LANG_def)

lemma demo_infer: "fst (infer_language_from_diff_text [demo_patch, demo_test_patch]) = ''Rust''"
  by (simp add: infer_language_from_diff_text_def demo_suffixes Counter_def counter_add_def
      lang_counts_of_def lang_step_def EXT_TO_LANG_def)

theorem infer_language_most_frequent_witness:
  "(\<exists>lang. 0 < lang_hits [demo_patch, demo_test_patch] lang) \<and>
   fst (infer_language_from_diff_text [demo_patch, demo_test_patch]) = ''Rust'' \<and>
   lang_hits [demo_patch, demo_test_patch] ''Python'' \<le>
     lang_hits [demo_patch, demo_test_patch] ''Rust'' \<and>
   (\<forall>lang. lang_hits [[], []] lang = 0) \<and>
   fst (infer_language_from_diff_text [[], []]) = ''Python''"
proof -
  have ex: "\<exists>lang. 0 < lang_hits [demo_patch, demo_test_patch] lang"
    by (rule exI [of _ "''Rust''"]) (simp add: demo_hits)
  from infer_language_most_frequent [of "[demo_patch, demo_test_patch]"] ex
  have "\<forall>lang. lang_hits [demo_patch, demo_test_patch] lang \<le>
          lang_hits [demo_patch, demo_test_patch]
            (fst (infer_language_from_diff_text [demo_patch, demo_test_patch]))"
    by blast
  then have le: "lang_hits [demo_patch, demo_test_patch] ''Python'' \<le>
     lang_hits [demo_patch, demo_test_patch] ''Rust''"
    by (simp add: demo_infer)
  have none: "\<forall>lang. lang_hits [[], []] lang = 0"
    by (simp add: lang_hits_def header_suffixes_def)
  with infer_language_most_frequent [of "[[], []]"]
  have "fst (infer_language_from_diff_text [[], []]) = ''Python''"
    by blast
  with ex le none show ?thesis by (simp add: demo_infer)
qed

subsection \<open>The evaluator: skipping and validation\<close>

lemma strip_Nil: "strip [] = []"
  by (simp add: strip_def lstrip_def rstrip_def)


text \<open>
  Claim C3. For an instance whose \<open>instance_id\<close> is non-empty, when \<open>overwrite\<close> is false
  and both \<open>test_output_prev_apply.txt\<close> and \<open>test_output_after_apply.txt\<close> exist under
  \<open>out_dir / instance_id\<close>, \<open>_run_one\<close> returns \<open>("skip", None)\<close> and leaves the world as it
  found it: the trace gains no event (no container is acquired, nothing is written) and the
  files are the same. Nothing is assumed of the other fields, so none of them is validated.
\<close>

theorem run_one_skip:
  assumes "instance_id_of rt inst \<noteq> []" and "\<not> overwrite"
    and "path_exists (path_join (path_join out_dir (instance_id_of rt inst)) PREV_FILE_NAME) w"
    and "path_exists (path_join (path_join out_dir (instance_id_of rt inst)) AFTER_FILE_NAME) w"
  shows "run_one rt inst platform out_dir timeout_s overwrite w = (Inr (''skip'', None), w)"
  using assms by (simp add: run_one_def Let_def captured_of_def ret_def)

lemma demo_bare_id: "instance_id_of demo_rt demo_bare = ''a''"
  by (simp add: instance_id_of_def demo_bare_def get_def py_or_def py_str_def)

lemma demo_paths:
  "path_join (path_join ''out'' ''a'') PREV_FILE_NAME = ''out/a/test_output_prev_apply.txt''"
  "path_join (path_join ''out'' ''a'') AFTER_FILE_NAME = ''out/a/test_output_after_apply.txt''"
  by (simp_all add: path_join_def PREV_FILE_NAME_def AFTER_FILE_NAME_def)

lemma demo_done_exists:
  "path_exists ''out/a/test_output_prev_apply.txt'' demo_done"
  "path_exists ''out/a/test_output_after_apply.txt'' demo_done"
  by (simp_all add: path_exists_def demo_done_def)

text \<open>
  An instance that carries only its id, in a world where both artifacts exist, is skipped.
\<close>

theorem run_one_skip_witness:
  "run_one demo_rt demo_bare ''linux'' ''out'' 5400 False demo_done = (Inr (''skip'', None), demo_done)"
  using run_one_skip [of demo_rt demo_bare False "''out''" demo_done "''linux''" 5400]
  by (simp add: demo_bare_id demo_paths demo_done_exists)











subsection \<open>The evaluator: the shape of a variant run\<close>

lemma record_call_simps:
  "trace (record_call c r w) = trace w @ [(c, r)]" "files (record_call c r w) = files w"
  by (simp_all add: record_call_def)

lemma session_prog_ret: "session_prog (ret x)"
  by (simp add: session_prog_def ret_def)

lemma session_prog_bind:
  assumes m: "session_prog m" and f: "\<And>x. session_prog (f x)"
  shows "session_prog (bind_prog m f)"
  unfolding session_prog_def
proof
  fix w
  from m obtain evs1 where 1: "trace (snd (m w)) = trace w @ evs1"
    "files (snd (m w)) = files w" "list_all session_event evs1"
    "\<forall>e. Some e \<in> raised_exc ` set evs1 \<longrightarrow> fst (m w) = Inl e"
    unfolding session_prog_def by blast
  obtain r w1 where mw: "m w = (r, w1)" by (cases "m w")
  show "\<exists>evs. trace (snd (bind_prog m f w)) = trace w @ evs \<and>
          files (snd (bind_prog m f w)) = files w \<and> list_all session_event evs \<and>
          (\<forall>e. Some e \<in> raised_exc ` set evs \<longrightarrow> fst (bind_prog m f w) = Inl e)"
  proof (cases r)
    case (Inl e)
    with mw have bw: "fst (bind_prog m f w) = Inl e" "snd (bind_prog m f w) = w1"
      by (simp_all add: bind_prog_def)
    from 1(4) mw Inl have "\<forall>e'. Some e' \<in> raised_exc ` set evs1 \<longrightarrow> fst (bind_prog m f w) = Inl e'"
      by (simp add: bw)
    with 1(1-3) mw bw(2) show ?thesis
      by (intro exI [of _ evs1]) simp
  next
    case (Inr x)
    with mw have b: "bind_prog m f w = f x w1" by (simp add: bind_prog_def)
    from f [of x] obtain evs2 where 2: "trace (snd (f x w1)) = trace w1 @ evs2"
      "files (snd (f x w1)) = files w1" "list_all session_event evs2"
      "\<forall>e. Some e \<in> raised_exc ` set evs2 \<longrightarrow> fst (f x w1) = Inl e"
      unfolding session_prog_def by blast
    from 1(4) mw Inr have none: "\<forall>e. Some e \<notin> raised_exc ` set evs1" by auto
    have "trace (snd (bind_prog m f w)) = trace w @ (evs1 @ evs2)"
      using 1(1) 2(1) mw b by simp
    moreover have "files (snd (bind_prog m f w)) = files w"
      using 1(2) 2(2) mw b by simp
    moreover have "list_all session_event (evs1 @ evs2)"
      using 1(3) 2(3) by simp
    moreover have "\<forall>e. Some e \<in> raised_exc ` set (evs1 @ evs2) \<longrightarrow> fst (bind_prog m f w) = Inl e"
      using none 2(4) b by auto
    ultimately show ?thesis by blast
  qed
qed

lemma session_prog_when: "session_prog m \<Longrightarrow> session_prog (when_prog b m)"
  by (simp add: when_prog_def session_prog_ret)

lemma session_prog_single:
  assumes "\<And>w. \<exists>r. snd (p w) = record_call c r w \<and> (\<forall>e. r = Raised e \<longrightarrow> fst (p w) = Inl e)"
    and "\<And>r. session_event (c, r)"
  shows "session_prog p"
  unfolding session_prog_def
proof
  fix w
  from assms(1) [of w] obtain r where r: "snd (p w) = record_call c r w"
    "\<forall>e. r = Raised e \<longrightarrow> fst (p w) = Inl e" by blast
  have "\<forall>e. Some e \<in> raised_exc ` set [(c, r)] \<longrightarrow> fst (p w) = Inl e"
    using r(2) by (cases r) auto
  with r(1) assms(2) [of r]
  show "\<exists>evs. trace (snd (p w)) = trace w @ evs \<and> files (snd (p w)) = files w \<and>
          list_all session_event evs \<and>
          (\<forall>e. Some e \<in> raised_exc ` set evs \<longrightarrow> fst (p w) = Inl e)"
    by (intro exI [of _ "[(c, r)]"]) (simp add: record_call_simps)
qed

lemma session_prog_apply_patch: "session_prog (apply_patch rt c p)"
  by (rule session_prog_single [where c = "ApplyPatch c p"])
     (auto simp: apply_patch_def split: option.splits)

lemma session_prog_send_command: "session_prog (send_command rt c cmd)"
  by (rule session_prog_single [where c = "SendCommand c cmd"])
     (auto simp: send_command_def split: sum.splits)

lemma session_prog_run_parser: "session_prog (run_parser rt p raw)"
  by (rule session_prog_single [where c = "RunParser p raw"])
     (auto simp: run_parser_def split: sum.splits)

lemmas session_prog_intros =
  session_prog_bind session_prog_when session_prog_ret session_prog_apply_patch
  session_prog_send_command session_prog_run_parser

lemma session_prog_variant_body: "session_prog (variant_body rt cv sol c)"
  unfolding variant_body_def by (intro session_prog_intros)

lemma session_prog_result:
  assumes "session_prog p" and "p w = (r, w')"
  obtains evs where "trace w' = trace w @ evs" "files w' = files w" "list_all session_event evs"
    "\<forall>e. Some e \<in> raised_exc ` set evs \<longrightarrow> r = Inl e"
  using assms unfolding session_prog_def by (metis fst_conv snd_conv)

lemma bind_prog_Inr:
  assumes "bind_prog m f w = (Inr y, w')"
  obtains x w1 where "m w = (Inr x, w1)" "f x w1 = (Inr y, w')"
  using assms by (auto simp: bind_prog_def split: prod.splits sum.splits)

lemma send_command_Inr:
  "send_command rt c cmd w = (Inr out, w') \<Longrightarrow> trace w' = trace w @ [(SendCommand c cmd, Output out)]"
  by (auto simp: send_command_def record_call_simps split: sum.splits)

lemma run_parser_Inr:
  "run_parser rt p raw w = (Inr sm, w') \<Longrightarrow> trace w' = trace w @ [(RunParser p raw, StatusMap sm)]"
  by (auto simp: run_parser_def record_call_simps split: sum.splits)

lemma variant_body_returns:
  assumes "variant_body rt cv sol c w = (Inr out, w')"
  shows "\<exists>pre raw sm. trace w' = trace w @ pre @
            [(SendCommand c (cap_print_cmd cv), Output raw),
             (RunParser (py_str rt (cap_parser cv)) raw, StatusMap sm)] \<and>
          out = variant_output raw sm"
proof -
  define A where "A = when_prog (strip (cap_test_patch cv) \<noteq> []) (apply_patch rt c (cap_test_patch cv))"
  define B where "B = when_prog (sol \<and> strip (cap_patch cv) \<noteq> []) (apply_patch rt c (cap_patch cv))"
  define C where "C = when_prog (cap_rebuild_cmd cv \<noteq> [])
      (bind_prog (send_command rt c (cap_rebuild_cmd cv)) (\<lambda>_. ret ()))"
  define D where "D = send_command rt c (cap_test_cmd cv)"
  have sp: "session_prog A" "session_prog B" "session_prog C" "session_prog D"
    unfolding A_def B_def C_def D_def by (intro session_prog_intros)+
  from assms have s0: "bind_prog A (\<lambda>_. bind_prog B (\<lambda>_. bind_prog C (\<lambda>_. bind_prog D (\<lambda>_.
      bind_prog (send_command rt c (cap_print_cmd cv)) (\<lambda>raw.
      bind_prog (run_parser rt (py_str rt (cap_parser cv)) raw) (\<lambda>status_map.
        ret (variant_output raw status_map))))))) w = (Inr out, w')"
    by (simp add: variant_body_def A_def B_def C_def D_def)
  from s0 obtain u1 w1 where a: "A w = (Inr u1, w1)"
    and s1: "bind_prog B (\<lambda>_. bind_prog C (\<lambda>_. bind_prog D (\<lambda>_.
      bind_prog (send_command rt c (cap_print_cmd cv)) (\<lambda>raw.
      bind_prog (run_parser rt (py_str rt (cap_parser cv)) raw) (\<lambda>status_map.
        ret (variant_output raw status_map)))))) w1 = (Inr out, w')"
    by (rule bind_prog_Inr)
  from s1 obtain u2 w2 where b: "B w1 = (Inr u2, w2)"
    and s2: "bind_prog C (\<lambda>_. bind_prog D (\<lambda>_.
      bind_prog (send_command rt c (cap_print_cmd cv)) (\<lambda>raw.
      bind_prog (run_parser rt (py_str rt (cap_parser cv)) raw) (\<lambda>status_map.
        ret (variant_output raw status_map))))) w2 = (Inr out, w')"
    by (rule bind_prog_Inr)
  from s2 obtain u3 w3 where c: "C w2 = (Inr u3, w3)"
    and s3: "bind_prog D (\<lambda>_.
      bind_prog (send_command rt c (cap_print_cmd cv)) (\<lambda>raw.
      bind_prog (run_parser rt (py_str rt (cap_parser cv)) raw) (\<lambda>status_map.
        ret (variant_output raw status_map)))) w3 = (Inr out, w')"
    by (rule bind_prog_Inr)
  from s3 obtain u4 w4 where d: "D w3 = (Inr u4, w4)"
    and s4: "bind_prog (send_command rt c (cap_print_cmd cv)) (\<lambda>raw.
      bind_prog (run_parser rt (py_str rt (cap_parser cv)) raw) (\<lambda>status_map.
        ret (variant_output raw status_map))) w4 = (Inr out, w')"
    by (rule bind_prog_Inr)
  from s4 obtain raw w5 where e: "send_command rt c (cap_print_cmd cv) w4 = (Inr raw, w5)"
    and s5: "bind_prog (run_parser rt (py_str rt (cap_parser cv)) raw) (\<lambda>status_map.
        ret (variant_output raw status_map)) w5 = (Inr out, w')"
    by (rule bind_prog_Inr)
  from s5 obtain sm w6 where f: "run_parser rt (py_str rt (cap_parser cv)) raw w5 = (Inr sm, w6)"
    and g: "ret (variant_output raw sm) w6 = (Inr out, w')"
    by (rule bind_prog_Inr)
  from g have out: "out = variant_output raw sm" and w6: "w' = w6"
    by (simp_all add: ret_def)
  from sp(1) a obtain e1 where 1: "trace w1 = trace w @ e1" by (rule session_prog_result)
  from sp(2) b obtain e2 where 2: "trace w2 = trace w1 @ e2" by (rule session_prog_result)
  from sp(3) c obtain e3 where 3: "trace w3 = trace w2 @ e3" by (rule session_prog_result)
  from sp(4) d obtain e4 where 4: "trace w4 = trace w3 @ e4" by (rule session_prog_result)
  have "trace w' = trace w @ (e1 @ e2 @ e3 @ e4) @
            [(SendCommand c (cap_print_cmd cv), Output raw),
             (RunParser (py_str rt (cap_parser cv)) raw, StatusMap sm)]"
    using 1 2 3 4 send_command_Inr [OF e] run_parser_Inr [OF f] w6 by simp
  with out show ?thesis by blast
qed

text \<open>The shape of every run of a variant.\<close>

lemma run_variant_cases [consumes 1, case_names acquire_failed session]:
  assumes run: "run_variant rt cv label sol w = (r, w')"
  obtains
    (acquire_failed) e where "files w' = files w"
      "trace w' = trace w @
         [(FromLaunchImage (cap_image cv) (cap_instance_id cv) (cap_platform cv)
             (cap_timeout_s cv), Raised e)]"
      "r = Inl e"
  | (session) c body res rb where "files w' = files w"
      "trace w' = trace w @
         (FromLaunchImage (cap_image cv) (cap_instance_id cv) (cap_platform cv)
            (cap_timeout_s cv), Container c) # body @ [(Cleanup c, res)]"
      "list_all session_event body"
      "\<forall>e. Some e \<in> raised_exc ` set body \<longrightarrow> rb = Inl e"
      "\<forall>out. rb = Inr out \<longrightarrow>
         (\<exists>pre raw sm. body = pre @
            [(SendCommand c (cap_print_cmd cv), Output raw),
             (RunParser (py_str rt (cap_parser cv)) raw, StatusMap sm)] \<and>
            out = variant_output raw sm)"
      "res = Done \<and> r = rb \<or>
         (\<exists>e'. res = Raised e' \<and> (if is_Exception e' then r = rb else r = Inl e'))"
proof -
  let ?acq = "FromLaunchImage (cap_image cv) (cap_instance_id cv) (cap_platform cv) (cap_timeout_s cv)"
  show thesis
  proof (cases "rt_from_launch_image rt (trace w) (cap_image cv) (cap_instance_id cv)
      (cap_platform cv) (cap_timeout_s cv)")
    case (Inl e)
    with run have "r = Inl e" "w' = record_call ?acq (Raised e) w"
      by (simp_all add: run_variant_def bind_prog_def from_launch_image_def)
    then show thesis
      by (intro acquire_failed [of e]) (simp_all add: record_call_simps)
  next
    case (Inr c)
    define w0 where "w0 = record_call ?acq (Container c) w"
    obtain rb w1 where body: "variant_body rt cv sol c w0 = (rb, w1)"
      by (cases "variant_body rt cv sol c w0")
    from session_prog_variant_body body obtain evs where evs: "trace w1 = trace w0 @ evs"
      "files w1 = files w0" "list_all session_event evs"
      "\<forall>e. Some e \<in> raised_exc ` set evs \<longrightarrow> rb = Inl e"
      by (rule session_prog_result)
    have ret_part: "\<forall>out. rb = Inr out \<longrightarrow>
           (\<exists>pre raw sm. evs = pre @
              [(SendCommand c (cap_print_cmd cv), Output raw),
               (RunParser (py_str rt (cap_parser cv)) raw, StatusMap sm)] \<and>
              out = variant_output raw sm)"
    proof (intro allI impI)
      fix out assume "rb = Inr out"
      with body have "variant_body rt cv sol c w0 = (Inr out, w1)" by simp
      from variant_body_returns [OF this] evs(1) show "\<exists>pre raw sm. evs = pre @
              [(SendCommand c (cap_print_cmd cv), Output raw),
               (RunParser (py_str rt (cap_parser cv)) raw, StatusMap sm)] \<and>
              out = variant_output raw sm"
        by auto
    qed
    from run Inr body have fin: "(r, w') =
        (case try_except_Exception (cleanup rt c) (\<lambda>e. ret ()) w1 of
           (Inl e, w'') \<Rightarrow> (Inl e, w'') | (Inr u, w'') \<Rightarrow> (rb, w''))"
      by (simp add: run_variant_def bind_prog_def from_launch_image_def try_finally_def w0_def)
    have "\<exists>res. w' = record_call (Cleanup c) res w1 \<and>
        (res = Done \<and> r = rb \<or>
         (\<exists>e'. res = Raised e' \<and> (if is_Exception e' then r = rb else r = Inl e')))"
    proof (cases "rt_cleanup rt (trace w1) c")
      case None
      with fin have "r = rb" "w' = record_call (Cleanup c) Done w1"
        by (simp_all add: try_except_Exception_def cleanup_def)
      then show ?thesis by (intro exI [of _ Done]) simp
    next
      case (Some e')
      with fin have "if is_Exception e' then r = rb else r = Inl e'"
        "w' = record_call (Cleanup c) (Raised e') w1"
        by (simp_all add: try_except_Exception_def cleanup_def ret_def split: if_splits)
      then show ?thesis by (intro exI [of _ "Raised e'"]) simp
    qed
    then obtain res where w': "w' = record_call (Cleanup c) res w1"
      and res: "res = Done \<and> r = rb \<or>
         (\<exists>e'. res = Raised e' \<and> (if is_Exception e' then r = rb else r = Inl e'))"
      by (elim exE conjE)
    have "files w' = files w"
      by (simp add: w' evs(2) w0_def record_call_simps)
    moreover have "trace w' = trace w @ (?acq, Container c) # evs @ [(Cleanup c, res)]"
      by (simp add: w' evs(1) w0_def record_call_simps)
    ultimately show thesis
      using evs(3,4) ret_part res by (rule session)
  qed
qed

lemma of_char_less_256: "(of_char c :: nat) < 256"
proof -
  have "(of_char c :: nat) = of_char c mod 256" by (simp only: of_char_mod_256)
  also have "\<dots> < 256" by simp
  finally show ?thesis .
qed

lemma lower_char_eq_iff:
  assumes t: "97 \<le> (of_char t :: nat)" "(of_char t :: nat) \<le> 122"
  shows "lower_char c = t \<longleftrightarrow> c = t \<or> (of_char c :: nat) + 32 = of_char t"
proof -
  let ?n = "of_char c :: nat"
  show ?thesis
  proof (cases "(65 \<le> ?n \<and> ?n \<le> 90) \<or> (192 \<le> ?n \<and> ?n \<le> 222 \<and> ?n \<noteq> 215)")
    case True
    then have l: "lower_char c = char_of (?n + 32)" by (simp add: lower_char_def Let_def)
    from True have small: "?n + 32 < 256" by auto
    have "char_of (?n + 32) = t \<longleftrightarrow> ?n + 32 = of_char t"
    proof
      assume "char_of (?n + 32) = t"
      then have "(of_char (char_of (?n + 32)) :: nat) = of_char t" by simp
      with small show "?n + 32 = of_char t" by simp
    next
      assume "?n + 32 = of_char t"
      then have "char_of (?n + 32) = char_of (of_char t :: nat)" by simp
      then show "char_of (?n + 32) = t" by simp
    qed
    moreover from True t have "c \<noteq> t" by auto
    ultimately show ?thesis by (simp add: l)
  next
    case False
    have l: "lower_char c = c"
      unfolding lower_char_def Let_def by (simp only: False if_False)
    from False t have "?n + 32 \<noteq> of_char t" by auto
    with l show ?thesis by simp
  qed
qed

lemma upper_of:
  "(of_char c :: nat) = 70 \<longleftrightarrow> c = CHR ''F''"
  "(of_char c :: nat) = 65 \<longleftrightarrow> c = CHR ''A''"
  "(of_char c :: nat) = 73 \<longleftrightarrow> c = CHR ''I''"
  "(of_char c :: nat) = 76 \<longleftrightarrow> c = CHR ''L''"
proof -
  have *: "(of_char c :: nat) = of_char d \<longleftrightarrow> c = d" for d
    by (rule of_char_eq_iff)
  show "(of_char c :: nat) = 70 \<longleftrightarrow> c = CHR ''F''"
    using * [of "CHR ''F''"] by simp
  show "(of_char c :: nat) = 65 \<longleftrightarrow> c = CHR ''A''"
    using * [of "CHR ''A''"] by simp
  show "(of_char c :: nat) = 73 \<longleftrightarrow> c = CHR ''I''"
    using * [of "CHR ''I''"] by simp
  show "(of_char c :: nat) = 76 \<longleftrightarrow> c = CHR ''L''"
    using * [of "CHR ''L''"] by simp
qed

lemma lower_char_fail:
  "lower_char c = CHR ''f'' \<longleftrightarrow> c \<in> set ''fF''"
  "lower_char c = CHR ''a'' \<longleftrightarrow> c \<in> set ''aA''"
  "lower_char c = CHR ''i'' \<longleftrightarrow> c \<in> set ''iI''"
  "lower_char c = CHR ''l'' \<longleftrightarrow> c \<in> set ''lL''"
  by (simp_all add: lower_char_eq_iff upper_of)

lemma in_spellings:
  "v \<in> set (concat (map (\<lambda>f. concat (map (\<lambda>a. concat (map (\<lambda>i. map (\<lambda>l. [f, a, i, l]) L) I)) A)) F))
   \<longleftrightarrow> (\<exists>f \<in> set F. \<exists>a \<in> set A. \<exists>i \<in> set I. \<exists>l \<in> set L. v = [f, a, i, l])"
  by auto

lemma four_chars:
  "(\<exists>a b c d. v = [a, b, c, d] \<and> a \<in> S1 \<and> b \<in> S2 \<and> c \<in> S3 \<and> d \<in> S4) \<longleftrightarrow>
   (\<exists>a \<in> S1. \<exists>b \<in> S2. \<exists>c \<in> S3. \<exists>d \<in> S4. v = [a, b, c, d])"
  by blast

lemma lower_eq_fail: "lower v = ''fail'' \<longleftrightarrow> v \<in> set fail_spellings"
proof -
  have "lower v = ''fail'' \<longleftrightarrow>
        (\<exists>a b c d. v = [a, b, c, d] \<and> lower_char a = CHR ''f'' \<and> lower_char b = CHR ''a'' \<and>
           lower_char c = CHR ''i'' \<and> lower_char d = CHR ''l'')"
    by (auto simp: lower_def map_eq_Cons_conv)
  also have "\<dots> \<longleftrightarrow> v \<in> set fail_spellings"
    unfolding fail_spellings_def in_spellings by (simp only: lower_char_fail four_chars)
  finally show ?thesis .
qed

subsection \<open>The evaluator: serialized output and cleanup\<close>

lemma variant_output_spec:
  "variant_output raw sm =
     rstrip raw @ ''\<newline>'' @
       (if \<exists>v \<in> snd ` set sm. v \<in> set fail_spellings
        then ''echo OMNIGRIL_EXIT_CODE=1'' else ''echo OMNIGRIL_EXIT_CODE=0'') @ ''\<newline>''"
proof -
  have "list_ex (\<lambda>v. lower v = ''fail'') (map snd sm) \<longleftrightarrow>
        (\<exists>v \<in> snd ` set sm. v \<in> set fail_spellings)"
    by (simp add: list_ex_iff lower_eq_fail)
  then show ?thesis
    by (simp add: variant_output_def str_int_def str_nat.simps digit_char_def)
qed

text \<open>
  Claim C1. When \<open>run_variant\<close> returns a text, the events of the run end with the print
  command answering the raw log \<open>raw\<close>, the parser classifying that log into \<open>sm\<close>, and the
  cleanup; the text returned is \<open>raw\<close> without its trailing whitespace, a newline, then the
  line \<open>echo OMNIGRIL_EXIT_CODE=1\<close> if some value of \<open>sm\<close> is \<open>fail\<close> in any mix of upper and
  lower case and \<open>echo OMNIGRIL_EXIT_CODE=0\<close> otherwise, then a newline. An empty status mapping
  gives exit code 0.
\<close>

theorem run_variant_serialized_output:
  assumes "run_variant rt cv label sol w = (Inr out, w')"
  shows "\<exists>pre c raw sm res.
           trace w' = trace w @ pre @
             [(SendCommand c (cap_print_cmd cv), Output raw),
              (RunParser (py_str rt (cap_parser cv)) raw, StatusMap sm),
              (Cleanup c, res)] \<and>
           out = rstrip raw @ ''\<newline>'' @
             (if \<exists>v \<in> snd ` set sm. v \<in> set fail_spellings
              then ''echo OMNIGRIL_EXIT_CODE=1'' else ''echo OMNIGRIL_EXIT_CODE=0'') @ ''\<newline>'' \<and>
           (sm = [] \<longrightarrow> out = rstrip raw @ ''\<newline>'' @ ''echo OMNIGRIL_EXIT_CODE=0'' @ ''\<newline>'')"
  using assms
proof (cases rule: run_variant_cases)
  case (acquire_failed e)
  then show ?thesis by simp
next
  case (session c body res rb)
  let ?acq = "FromLaunchImage (cap_image cv) (cap_instance_id cv) (cap_platform cv) (cap_timeout_s cv)"
  from session(6) have "rb = Inr out" by (auto split: if_splits)
  with session(5) obtain pre raw sm where body: "body = pre @
            [(SendCommand c (cap_print_cmd cv), Output raw),
             (RunParser (py_str rt (cap_parser cv)) raw, StatusMap sm)]"
    and out: "out = variant_output raw sm"
    by blast
  have "trace w' = trace w @ ((?acq, Container c) # pre) @
           [(SendCommand c (cap_print_cmd cv), Output raw),
            (RunParser (py_str rt (cap_parser cv)) raw, StatusMap sm),
            (Cleanup c, res)]"
    by (simp add: session(2) body)
  moreover have "out = rstrip raw @ ''\<newline>'' @
           (if \<exists>v \<in> snd ` set sm. v \<in> set fail_spellings
            then ''echo OMNIGRIL_EXIT_CODE=1'' else ''echo OMNIGRIL_EXIT_CODE=0'') @ ''\<newline>''"
    by (simp only: out variant_output_spec)
  moreover from this have
    "sm = [] \<longrightarrow> out = rstrip raw @ ''\<newline>'' @ ''echo OMNIGRIL_EXIT_CODE=0'' @ ''\<newline>''"
    by simp
  ultimately show ?thesis by blast
qed

lemma session_event_not_bracket:
  "list_all session_event body \<Longrightarrow> filter is_cleanup body = [] \<and> filter is_acquired body = []"
proof (induction body)
  case Nil
  then show ?case by simp
next
  case (Cons ev body)
  obtain c r where ev: "ev = (c, r)" by (cases ev)
  from Cons.prems have "session_event (c, r)" by (simp add: ev)
  then have "\<not> is_cleanup (c, r) \<and> \<not> is_acquired (c, r)" by (cases c) auto
  with Cons show ?case by (simp add: ev)
qed

lemma session_event_member:
  "list_all session_event body \<Longrightarrow> ev \<in> set body \<Longrightarrow> \<not> is_cleanup ev \<and> \<not> is_acquired ev"
  using session_event_not_bracket [of body] by (auto simp: filter_empty_conv)

lemma set_map_filter_raised:
  "set (List.map_filter raised_exc evs) = {e. Some e \<in> raised_exc ` set evs}"
proof (induction evs)
  case Nil
  then show ?case by (simp add: List.map_filter_simps)
next
  case (Cons ev evs)
  then show ?case
    by (cases "raised_exc ev") (auto simp: List.map_filter_simps)
qed

lemma raised_before_cleanup_session:
  assumes "list_all session_event body"
    and "e \<in> set (raised_before_cleanup ((a, Container c) # body @ [(Cleanup c', res)]))"
  shows "Some e \<in> raised_exc ` set body"
proof -
  from assms(2) have "Some e \<in> raised_exc `
      set (filter (\<lambda>ev. \<not> is_cleanup ev) ((a, Container c) # body @ [(Cleanup c', res)]))"
    by (simp only: raised_before_cleanup_def set_map_filter_raised mem_Collect_eq)
  then obtain ev where
    mem: "ev \<in> set (filter (\<lambda>ev. \<not> is_cleanup ev) ((a, Container c) # body @ [(Cleanup c', res)]))"
    and ev: "raised_exc ev = Some e"
    by (metis imageE)
  from mem have "ev = (a, Container c) \<or> ev \<in> set body \<or> ev = (Cleanup c', res)"
    and "\<not> is_cleanup ev"
    by (simp_all only: set_filter mem_Collect_eq set_simps set_append insert_iff Un_iff empty_iff) auto
  with ev have "ev \<in> set body" by auto
  with ev show ?thesis by (metis image_eqI)
qed

text \<open>
  Claim C2. Whatever \<open>run_variant\<close> does (return a text or raise), the events \<open>evs\<close> of the run
  hold as many cleanups as successful acquisitions, and a container that was acquired is
  cleaned up by the last event of the run: after the patches, the commands and the parser,
  whether they returned or raised. No file is touched. Every error raised before the cleanup
  is the error that \<open>run_variant\<close> raises to its caller, provided the cleanup completes, that is,
  raises nothing that \<open>except Exception\<close> lets through.
\<close>

theorem run_variant_cleanup_exactly_once:
  assumes "run_variant rt cv label sol w = (r, w')"
  shows "\<exists>evs. trace w' = trace w @ evs \<and> files w' = files w \<and>
           length (filter is_cleanup evs) = length (filter is_acquired evs) \<and>
           (\<forall>ev \<in> set evs. is_acquired ev \<longrightarrow>
              (\<exists>res. last evs = (Cleanup (case snd ev of Container c \<Rightarrow> c | _ \<Rightarrow> 0), res))) \<and>
           (\<not> cleanup_escapes evs \<longrightarrow> (\<forall>e \<in> set (raised_before_cleanup evs). r = Inl e))"
  using assms
proof (cases rule: run_variant_cases)
  case (acquire_failed e)
  let ?acq = "FromLaunchImage (cap_image cv) (cap_instance_id cv) (cap_platform cv) (cap_timeout_s cv)"
  from acquire_failed show ?thesis
    by (intro exI [of _ "[(?acq, Raised e)]"])
       (simp add: raised_before_cleanup_def List.map_filter_simps)
next
  case (session c body res rb)
  let ?acq = "FromLaunchImage (cap_image cv) (cap_instance_id cv) (cap_platform cv) (cap_timeout_s cv)"
  let ?evs = "(?acq, Container c) # body @ [(Cleanup c, res)]"
  note files = session(1) and tr = session(2) and body = session(3) and prp = session(4)
    and fin = session(6)
  have counts: "length (filter is_cleanup ?evs) = length (filter is_acquired ?evs)"
    using session_event_not_bracket [OF body] by simp
  have last: "\<forall>ev \<in> set ?evs. is_acquired ev \<longrightarrow>
            (\<exists>res'. last ?evs = (Cleanup (case snd ev of Container c \<Rightarrow> c | _ \<Rightarrow> 0), res'))"
    using session_event_member [OF body] by auto
  have esc: "cleanup_escapes ?evs \<longleftrightarrow> (\<exists>e'. res = Raised e' \<and> \<not> is_Exception e')"
  proof -
    have "\<not> list_ex (\<lambda>ev. is_cleanup ev \<and>
        (case raised_exc ev of Some e \<Rightarrow> \<not> is_Exception e | None \<Rightarrow> False)) body"
      using session_event_member [OF body] by (auto simp: list_ex_iff)
    then show ?thesis
      by (cases res) (auto simp: cleanup_escapes_def)
  qed
  have "\<not> cleanup_escapes ?evs \<longrightarrow> (\<forall>e \<in> set (raised_before_cleanup ?evs). r = Inl e)"
  proof (intro impI ballI)
    fix e assume ne: "\<not> cleanup_escapes ?evs" and e: "e \<in> set (raised_before_cleanup ?evs)"
    from ne fin have "r = rb" by (auto simp: esc split: if_splits)
    moreover from body e have "Some e \<in> raised_exc ` set body"
      by (rule raised_before_cleanup_session)
    ultimately show "r = Inl e" using prp by simp
  qed
  with tr files counts last show ?thesis
    by (intro exI [of _ ?evs]) (simp only: simp_thms)
qed

subsection \<open>The evaluator: a run with one failing test\<close>

lemma lower_FAIL: "lower ''FAIL'' = ''fail''"
  by (simp add: lower_eq_fail fail_spellings_def)

lemma demo_variant_output:
  "variant_output ''t1 FAILED  \<newline>'' [(''t1'', ''FAIL'')] = demo_out"
  by (simp add: variant_output_def lower_FAIL rstrip_def py_isspace_def demo_out_def
      str_int_def str_nat.simps digit_char_def)

lemma demo_captured: "captured_of rt demo_inst ''linux'' 5400 = demo_cv"
  by (simp add: captured_of_def demo_inst_def demo_cv_def image_of_def instance_id_of_def
      parser_of_def get_def get_default_def py_or_def py_str_def join_cmds_def strip_def
      lstrip_def rstrip_def py_isspace_def)

lemma demo_run_variant:
  assumes "rt_from_launch_image rt = rt_from_launch_image demo_rt"
    and "rt_send_command rt = rt_send_command demo_rt"
    and "rt_run_parser rt = rt_run_parser demo_rt"
    and "rt_cleanup rt = rt_cleanup demo_rt"
  shows "run_variant rt demo_cv label sol w =
           (Inr demo_out, w\<lparr>trace := trace w @ demo_run_events (length (trace w))\<rparr>)"
  by (simp add: run_variant_def variant_body_def bind_prog_def try_finally_def
      try_except_Exception_def when_prog_def ret_def from_launch_image_def send_command_def
      run_parser_def cleanup_def record_call_def assms demo_rt_def demo_cv_def py_str_def
      strip_Nil demo_variant_output [unfolded demo_out_def] demo_out_def demo_run_events_def)

lemma demo_rt_run:
  "run_variant demo_rt demo_cv ''prev'' False demo_fresh =
     (Inr demo_out, demo_fresh\<lparr>trace := demo_run_events 0\<rparr>)"
  using demo_run_variant [of demo_rt "''prev''" False demo_fresh]
  by (simp add: demo_fresh_def)

text \<open>
  The run of \<open>demo_rt\<close> returns the log \<open>t1 FAILED\<close> trimmed, with the marker of exit code 1.
\<close>

theorem run_variant_serialized_output_witness:
  "run_variant demo_rt demo_cv ''prev'' False demo_fresh =
     (Inr demo_out, demo_fresh\<lparr>trace := demo_run_events 0\<rparr>) \<and>
   (\<exists>pre c raw sm res.
      demo_run_events 0 = pre @
        [(SendCommand c ''cat log'', Output raw), (RunParser ''pytest'' raw, StatusMap sm),
         (Cleanup c, res)] \<and>
      demo_out = rstrip raw @ ''\<newline>'' @
        (if \<exists>v \<in> snd ` set sm. v \<in> set fail_spellings
         then ''echo OMNIGRIL_EXIT_CODE=1'' else ''echo OMNIGRIL_EXIT_CODE=0'') @ ''\<newline>'')"
proof -
  have cv: "cap_print_cmd demo_cv = ''cat log''" "py_str demo_rt (cap_parser demo_cv) = ''pytest''"
    by (simp_all add: demo_cv_def py_str_def)
  from run_variant_serialized_output [OF demo_rt_run] obtain pre c raw sm res where
    tr: "trace (demo_fresh\<lparr>trace := demo_run_events 0\<rparr>) = trace demo_fresh @ pre @
        [(SendCommand c (cap_print_cmd demo_cv), Output raw),
         (RunParser (py_str demo_rt (cap_parser demo_cv)) raw, StatusMap sm),
         (Cleanup c, res)]"
    and out: "demo_out = rstrip raw @ ''\<newline>'' @
        (if \<exists>v \<in> snd ` set sm. v \<in> set fail_spellings
         then ''echo OMNIGRIL_EXIT_CODE=1'' else ''echo OMNIGRIL_EXIT_CODE=0'') @ ''\<newline>''"
    by blast
  from tr have "demo_run_events 0 = pre @
        [(SendCommand c ''cat log'', Output raw), (RunParser ''pytest'' raw, StatusMap sm),
         (Cleanup c, res)]"
    by (simp add: cv demo_fresh_def)
  with out have "\<exists>pre c raw sm res.
      demo_run_events 0 = pre @
        [(SendCommand c ''cat log'', Output raw), (RunParser ''pytest'' raw, StatusMap sm),
         (Cleanup c, res)] \<and>
      demo_out = rstrip raw @ ''\<newline>'' @
        (if \<exists>v \<in> snd ` set sm. v \<in> set fail_spellings
         then ''echo OMNIGRIL_EXIT_CODE=1'' else ''echo OMNIGRIL_EXIT_CODE=0'') @ ''\<newline>''"
    by (intro exI conjI)
  with demo_rt_run show ?thesis by (intro conjI)
qed

text \<open>
  The same run acquires one container and cleans it up once, as its last event. With
  \<open>demo_timeout\<close> the test command raises \<open>TimeoutError\<close>: the container is still cleaned up once,
  as the last event, and \<open>run_variant\<close> raises the \<open>TimeoutError\<close>.
\<close>

lemma demo_timeout_run:
  "run_variant demo_timeout demo_cv ''prev'' False demo_fresh =
     (Inl (Exc True ''TimeoutError'' ''timed out''), demo_fresh\<lparr>trace := demo_timeout_events\<rparr>)"
  by (simp add: run_variant_def variant_body_def bind_prog_def try_finally_def
      try_except_Exception_def when_prog_def ret_def from_launch_image_def send_command_def
      cleanup_def record_call_def demo_timeout_def demo_rt_def demo_cv_def strip_Nil
      demo_fresh_def demo_timeout_events_def)

theorem run_variant_cleanup_exactly_once_witness:
  "run_variant demo_rt demo_cv ''prev'' False demo_fresh =
     (Inr demo_out, demo_fresh\<lparr>trace := demo_run_events 0\<rparr>) \<and>
   length (filter is_cleanup (demo_run_events 0)) = 1 \<and>
   length (filter is_acquired (demo_run_events 0)) = 1 \<and>
   is_cleanup (last (demo_run_events 0)) \<and>
   run_variant demo_timeout demo_cv ''prev'' False demo_fresh =
     (Inl (Exc True ''TimeoutError'' ''timed out''), demo_fresh\<lparr>trace := demo_timeout_events\<rparr>) \<and>
   length (filter is_cleanup demo_timeout_events) = 1 \<and>
   last demo_timeout_events = (Cleanup 0, Done) \<and>
   \<not> cleanup_escapes demo_timeout_events \<and>
   raised_before_cleanup demo_timeout_events = [Exc True ''TimeoutError'' ''timed out'']"
proof -
  from run_variant_cleanup_exactly_once [OF demo_rt_run]
  have "length (filter is_cleanup (demo_run_events 0)) =
        length (filter is_acquired (demo_run_events 0))"
    by (simp add: demo_fresh_def)
  moreover have "length (filter is_acquired (demo_run_events 0)) = 1"
    "is_cleanup (last (demo_run_events 0))"
    by (simp_all add: demo_run_events_def)
  moreover from run_variant_cleanup_exactly_once [OF demo_timeout_run]
  have "length (filter is_cleanup demo_timeout_events) =
        length (filter is_acquired demo_timeout_events)"
    by (simp add: demo_fresh_def)
  moreover have "length (filter is_acquired demo_timeout_events) = 1"
    "last demo_timeout_events = (Cleanup 0, Done)"
    "\<not> cleanup_escapes demo_timeout_events"
    "raised_before_cleanup demo_timeout_events = [Exc True ''TimeoutError'' ''timed out'']"
    by (simp_all add: demo_timeout_events_def cleanup_escapes_def raised_before_cleanup_def
        List.map_filter_simps)
  ultimately show ?thesis using demo_rt_run demo_timeout_run by simp
qed

subsection \<open>The evaluator: writing the artifacts and the diagnostic\<close>

lemma run_one_valid:
  assumes "\<forall>f. \<not> rejected rt inst f" and "\<not> skip_applies rt inst out_dir overwrite w"
  shows "run_one rt inst platform out_dir timeout_s overwrite w =
           run_both rt (captured_of rt inst platform timeout_s)
             (path_join out_dir (instance_id_of rt inst))
             (path_join (path_join out_dir (instance_id_of rt inst)) PREV_FILE_NAME)
             (path_join (path_join out_dir (instance_id_of rt inst)) AFTER_FILE_NAME) w"
proof -
  from assms(1) have "\<not> rejected rt inst InstanceId" "\<not> rejected rt inst Image"
    "\<not> rejected rt inst TestCommands" "\<not> rejected rt inst PrintCommands"
    "\<not> rejected rt inst ParserId"
    by blast+
  then have ok: "instance_id_of rt inst \<noteq> []" "truthy (image_of inst)"
    "join_cmds rt (get inst ''test_cmds'') \<noteq> []" "join_cmds rt (get inst ''print_cmds'') \<noteq> []"
    "strip (py_str rt (parser_of inst)) \<noteq> []"
    by simp_all
  with assms(2) have "\<not> (\<not> overwrite \<and>
      path_exists (path_join (path_join out_dir (instance_id_of rt inst)) PREV_FILE_NAME) w \<and>
      path_exists (path_join (path_join out_dir (instance_id_of rt inst)) AFTER_FILE_NAME) w)"
    by (simp add: skip_applies_def)
  with ok show ?thesis
    by (auto simp add: run_one_def Let_def captured_of_def)
qed




lemma demo_inst_valid: "\<forall>f. \<not> rejected rt demo_inst f"
proof
  fix f
  have c: "captured_of rt demo_inst ''linux'' 5400 = demo_cv" by (rule demo_captured)
  have "instance_id_of rt demo_inst = ''a''" "image_of demo_inst = JStr ''img''"
    "join_cmds rt (get demo_inst ''test_cmds'') = ''pytest''"
    "join_cmds rt (get demo_inst ''print_cmds'') = ''cat log''"
    "parser_of demo_inst = JStr ''pytest''"
    using c by (simp_all add: captured_of_def demo_cv_def)
  then show "\<not> rejected rt demo_inst f"
    by (cases f) (simp_all add: py_str_def strip_def lstrip_def rstrip_def py_isspace_def)
qed

lemma demo_inst_id: "instance_id_of rt demo_inst = ''a''"
  using demo_captured [of rt] by (simp add: captured_of_def demo_cv_def)

lemma demo_inst_no_skip: "\<not> skip_applies rt demo_inst ''out'' False demo_fresh"
  by (simp add: skip_applies_def demo_inst_id demo_paths path_exists_def demo_fresh_def)

lemma demo_dir: "path_join ''out'' ''a'' = ''out/a''"
  by (simp add: path_join_def)

lemma demo_run_one:
  "run_one rt demo_inst ''linux'' ''out'' 5400 False demo_fresh =
     run_both rt demo_cv ''out/a'' ''out/a/test_output_prev_apply.txt''
       ''out/a/test_output_after_apply.txt'' demo_fresh"
  unfolding run_one_valid [OF demo_inst_valid demo_inst_no_skip]
  by (simp add: demo_captured demo_inst_id demo_dir demo_paths [unfolded demo_dir])

text \<open>
  Claim C5 fails in the code. With \<open>demo_no_image\<close> the first variant run raises
  \<open>RuntimeError\<close> (the image cannot be launched) and the handler of line 154 starts with
  \<open>inst_out.mkdir\<close>, which raises \<open>OSError\<close>. Nothing catches it: \<open>_run_one\<close> does not return
  \<open>("error", \<dots>)\<close>, it raises the \<open>OSError\<close>.
\<close>

theorem run_one_diagnostic_write_raises:
  "fst (run_one demo_no_image demo_inst ''linux'' ''out'' 5400 False demo_fresh) =
     Inl (Exc True ''OSError'' ''Read-only file system'')"
  by (simp add: demo_run_one run_both_def bind_prog_def try_except_Exception_def run_variant_def
      from_launch_image_def mkdir_def record_call_def demo_no_image_def demo_rt_def)






end
